theory Spec2Isabelle
  imports Main "HOL-Library.List_Lexorder"
begin

section \<open>JavaScript strings\<close>

text \<open>
  A JavaScript string is a sequence of UTF-16 code units. A code unit is modelled by its
  numeric value, so that the characters beyond ASCII which \<^verbatim>\<open>trim\<close> and \<^verbatim>\<open>\s\<close> treat as white
  space are inputs of the model as well. \<open>js\<close> turns an ASCII literal into such a string.
\<close>

type_synonym jsstring = "nat list"

definition js :: "string \<Rightarrow> jsstring" where
  "js = map of_char"

text \<open>
  ECMAScript WhiteSpace and LineTerminator: what \<^verbatim>\<open>String.prototype.trim\<close> strips and what
  the regular expression class \<^verbatim>\<open>\s\<close> matches.
\<close>

definition isWhiteSpace :: "nat \<Rightarrow> bool" where
  "isWhiteSpace c \<longleftrightarrow>
     c \<in> {0x9, 0xA, 0xB, 0xC, 0xD, 0x20, 0xA0, 0x1680, 0x2028, 0x2029, 0x202F, 0x205F,
          0x3000, 0xFEFF}
     \<or> (0x2000 \<le> c \<and> c \<le> 0x200A)"

definition trim :: "jsstring \<Rightarrow> jsstring" where
  "trim s = rev (dropWhile isWhiteSpace (rev (dropWhile isWhiteSpace s)))"

definition startsWith :: "jsstring \<Rightarrow> jsstring \<Rightarrow> bool" where
  "startsWith s p \<longleftrightarrow> take (length p) s = p"

text \<open>\<^verbatim>\<open>s.includes(sub)\<close>: \<open>sub\<close> occurs in \<open>s\<close> at some position.\<close>

fun str_includes :: "jsstring \<Rightarrow> jsstring \<Rightarrow> bool" where
  "str_includes [] sub = (sub = [])"
| "str_includes (c # cs) sub = (startsWith (c # cs) sub \<or> str_includes cs sub)"

section \<open>Regular expressions of the validator\<close>

text \<open>
  Case-insensitive matching (flag \<^verbatim>\<open>i\<close>, no flag \<^verbatim>\<open>u\<close>) compares the Canonicalize images of
  pattern and input characters. On ASCII that is upper-casing; a code unit from 128 on is
  never mapped into ASCII, so against the ASCII-only patterns of this program it matches
  nothing, which is all the model needs of it.
\<close>

definition canonicalize :: "nat \<Rightarrow> nat" where
  "canonicalize c = (if 97 \<le> c \<and> c \<le> 122 then c - 32 else c)"

text \<open>\<^verbatim>\<open>/pat/i.test(s)\<close> for a pattern that is a plain sequence of ASCII characters.\<close>

definition test_ci :: "jsstring \<Rightarrow> jsstring \<Rightarrow> bool" where
  "test_ci pat s = str_includes (map canonicalize s) (map canonicalize pat)"

definition isAlnum :: "nat \<Rightarrow> bool" where
  "isAlnum c \<longleftrightarrow> (48 \<le> c \<and> c \<le> 57) \<or> (65 \<le> c \<and> c \<le> 90) \<or> (97 \<le> c \<and> c \<le> 122)"

text \<open>A word character of \<^verbatim>\<open>\b\<close>: \<^verbatim>\<open>[A-Za-z0-9_]\<close>.\<close>

definition isWordChar :: "nat \<Rightarrow> bool" where
  "isWordChar c \<longleftrightarrow> isAlnum c \<or> c = 95"

text \<open>
  The three character classes of \<^verbatim>\<open>URL_PATTERNS.URL_REGEX\<close>:
  \<^verbatim>\<open>/^https?:\/\/(www\.)?[-a-zA-Z0-9@:%._\+~#=]{1,256}\.[a-zA-Z0-9()]{1,6}\b([-a-zA-Z0-9()@:%_\+.~#?&//=]*)$/\<close>
\<close>

definition hostChar :: "nat \<Rightarrow> bool" where
  "hostChar c \<longleftrightarrow> isAlnum c \<or> c \<in> set (js ''-@:%._+~#='')"

definition tldChar :: "nat \<Rightarrow> bool" where
  "tldChar c \<longleftrightarrow> isAlnum c \<or> c \<in> set (js ''()'')"

definition tailChar :: "nat \<Rightarrow> bool" where
  "tailChar c \<longleftrightarrow> isAlnum c \<or> c \<in> set (js ''-()@:%_+.~#?&/='')"

text \<open>
  \<^verbatim>\<open>\b([...]*)$\<close> after a last matched character \<open>prev\<close>: a word boundary, then only
  characters of the third class up to the end.
\<close>

definition match_tail :: "nat \<Rightarrow> jsstring \<Rightarrow> bool" where
  "match_tail prev cs \<longleftrightarrow>
     (isWordChar prev \<noteq> (case cs of [] \<Rightarrow> False | c # _ \<Rightarrow> isWordChar c))
     \<and> list_all tailChar cs"

text \<open>
  \<^verbatim>\<open>[a-zA-Z0-9()]{1,6}\<close> followed by the tail. \<open>n\<close> counts the characters the group has
  taken, \<open>prev\<close> is the last of them; the disjunction is the engine's backtracking.
\<close>

fun match_tld :: "nat \<Rightarrow> nat \<Rightarrow> jsstring \<Rightarrow> bool" where
  "match_tld n prev [] = match_tail prev []"
| "match_tld n prev (c # cs) =
     (match_tail prev (c # cs) \<or> (n < 6 \<and> tldChar c \<and> match_tld (Suc n) c cs))"

definition match_tld_start :: "jsstring \<Rightarrow> bool" where
  "match_tld_start cs = (case cs of [] \<Rightarrow> False | c # cs' \<Rightarrow> tldChar c \<and> match_tld 1 c cs')"

text \<open>\<^verbatim>\<open>[-a-zA-Z0-9@:%._\+~#=]{1,256}\.\<close> and what follows; \<open>n\<close> characters taken so far.\<close>

fun match_host :: "nat \<Rightarrow> jsstring \<Rightarrow> bool" where
  "match_host n [] = False"
| "match_host n (c # cs) =
     ((1 \<le> n \<and> c = 46 \<and> match_tld_start cs) \<or> (n < 256 \<and> hostChar c \<and> match_host (Suc n) cs))"

definition match_www :: "jsstring \<Rightarrow> bool" where
  "match_www r \<longleftrightarrow> (startsWith r (js ''www.'') \<and> match_host 0 (drop 4 r)) \<or> match_host 0 r"

definition URL_REGEX_test :: "jsstring \<Rightarrow> bool" where
  "URL_REGEX_test s \<longleftrightarrow>
     (startsWith s (js ''http://'') \<and> match_www (drop 7 s))
     \<or> (startsWith s (js ''https://'') \<and> match_www (drop 8 s))"

definition unsafePatterns :: "jsstring list" where
  "unsafePatterns =
     [js ''javascript:'', js ''data:'', js ''vbscript:'', js ''file:'', js ''<script'',
      js ''onclick'', js ''onerror'']"

definition containsUnsafePatterns :: "jsstring \<Rightarrow> bool" where
  "containsUnsafePatterns url = list_ex (\<lambda>pattern. test_ci pattern url) unsafePatterns"

section \<open>The platform's URL class\<close>

text \<open>
  \<^verbatim>\<open>new URL(s)\<close> is the platform's parser (the WHATWG URL standard), not code of this
  program. A parsed URL is a record of the standard's components; the validator only hands
  the parser strings that begin with \<^verbatim>\<open>http://\<close> or \<^verbatim>\<open>https://\<close>, for which the standard always
  produces a host, so the record has one. \<open>protocol\<close> is the getter of that name and
  \<open>href\<close> the standard's serializer, which \<^verbatim>\<open>toString()\<close> returns.
\<close>

record URL =
  scheme :: jsstring
  username :: jsstring
  password :: jsstring
  host :: jsstring
  port :: "jsstring option"
  path :: jsstring
  query :: "jsstring option"
  fragment :: "jsstring option"

definition protocol :: "URL \<Rightarrow> jsstring" where
  "protocol u = scheme u @ js '':''"

definition href :: "URL \<Rightarrow> jsstring" where
  "href u =
     scheme u @ js '':'' @ js ''//''
     @ (if username u \<noteq> [] \<or> password u \<noteq> []
        then username u @ (if password u \<noteq> [] then js '':'' @ password u else []) @ js ''@''
        else [])
     @ host u
     @ (case port u of None \<Rightarrow> [] | Some p \<Rightarrow> js '':'' @ p)
     @ path u
     @ (case query u of None \<Rightarrow> [] | Some q \<Rightarrow> js ''?'' @ q)
     @ (case fragment u of None \<Rightarrow> [] | Some f \<Rightarrow> js ''#'' @ f)"

text \<open>
  The validator takes the parser as a parameter \<open>newURL\<close> (\<open>None\<close>: the constructor
  throws), and the general theorems hold for every parser. \<open>new_URL\<close> below is the
  standard's parser on a fragment of its inputs, used where a concrete input is evaluated:
  \<^item> the scheme is \<^verbatim>\<open>http\<close> or \<^verbatim>\<open>https\<close>, followed by \<^verbatim>\<open>//\<close>;
  \<^item> the authority (up to the first \<^verbatim>\<open>/\<close>, \<^verbatim>\<open>?\<close> or \<^verbatim>\<open>#\<close>) is a host name of non-empty
    labels of ASCII letters separated by single dots, which the standard lower-cases (no
    user information, port, percent escapes, digits or hyphens, hence no IPv4 or Punycode
    processing);
  \<^item> the path (up to the first \<^verbatim>\<open>?\<close> or \<^verbatim>\<open>#\<close>) has only letters, digits and
    \<^verbatim>\<open>/-_~+=&@:()\<close>, which the standard keeps as they are (no dot segments); an empty path
    becomes \<^verbatim>\<open>/\<close>;
  \<^item> query (after \<^verbatim>\<open>?\<close>, up to the first \<^verbatim>\<open>#\<close>) and fragment (after \<^verbatim>\<open>#\<close>) have only
    characters of the third class of the URL regex, which the standard keeps as they are.
  Outside this fragment \<open>new_URL\<close> is \<open>None\<close>; nothing is proved from that value.
\<close>

definition isLetter :: "nat \<Rightarrow> bool" where
  "isLetter c \<longleftrightarrow> (65 \<le> c \<and> c \<le> 90) \<or> (97 \<le> c \<and> c \<le> 122)"

definition asciiLower :: "nat \<Rightarrow> nat" where
  "asciiLower c = (if 65 \<le> c \<and> c \<le> 90 then c + 32 else c)"

text \<open>Non-empty labels of letters, separated by single dots; \<open>inLabel\<close>: a label has begun.\<close>

fun plainHost :: "bool \<Rightarrow> jsstring \<Rightarrow> bool" where
  "plainHost inLabel [] = inLabel"
| "plainHost inLabel (c # cs) =
     (if isLetter c then plainHost True cs
      else if c = 46 then inLabel \<and> plainHost False cs
      else False)"

definition plainPathChar :: "nat \<Rightarrow> bool" where
  "plainPathChar c \<longleftrightarrow> isAlnum c \<or> c \<in> set (js ''/-_~+=&@:()'')"

definition new_URL :: "jsstring \<Rightarrow> URL option" where
  "new_URL s =
     (let sch = (if startsWith s (js ''http://'') then Some (js ''http'', drop 7 s)
                 else if startsWith s (js ''https://'') then Some (js ''https'', drop 8 s)
                 else None)
      in case sch of
           None \<Rightarrow> None
         | Some (sc, r) \<Rightarrow>
             let isDelim = (\<lambda>c. c \<in> set (js ''/?#''));
                 authority = takeWhile (\<lambda>c. \<not> isDelim c) r;
                 r1 = dropWhile (\<lambda>c. \<not> isDelim c) r;
                 pth = takeWhile (\<lambda>c. c \<notin> set (js ''?#'')) r1;
                 r2 = dropWhile (\<lambda>c. c \<notin> set (js ''?#'')) r1;
                 qry = (case r2 of c # cs \<Rightarrow>
                          if c = 63 then Some (takeWhile (\<lambda>c. c \<noteq> 35) cs) else None
                        | [] \<Rightarrow> None);
                 r3 = (case r2 of c # cs \<Rightarrow> if c = 63 then dropWhile (\<lambda>c. c \<noteq> 35) cs else r2
                       | [] \<Rightarrow> []);
                 frg = (case r3 of c # cs \<Rightarrow> Some cs | [] \<Rightarrow> None)
             in if plainHost False authority \<and> list_all plainPathChar pth
                   \<and> list_all tailChar (case qry of None \<Rightarrow> [] | Some q \<Rightarrow> q)
                   \<and> list_all tailChar (case frg of None \<Rightarrow> [] | Some f \<Rightarrow> f)
                then Some \<lparr> scheme = sc, username = [], password = [],
                            host = map asciiLower authority, port = None,
                            path = (if pth = [] then js ''/'' else pth),
                            query = qry, fragment = frg \<rparr>
                else None)"

section \<open>URLValidator\<close>

record ValidationResult =
  isValid :: bool
  error :: "jsstring option"
  normalizedUrl :: "jsstring option"

definition rejected :: "string \<Rightarrow> ValidationResult" where
  "rejected msg = \<lparr> isValid = False, error = Some (js msg), normalizedUrl = None \<rparr>"

definition accepted :: "jsstring \<Rightarrow> ValidationResult" where
  "accepted n = \<lparr> isValid = True, error = None, normalizedUrl = Some n \<rparr>"

text \<open>Lines 22 to 25 of \<^verbatim>\<open>validate\<close>: add the protocol if it is missing.\<close>

definition addProtocol :: "jsstring \<Rightarrow> jsstring" where
  "addProtocol trimmedUrl =
     (if \<not> startsWith trimmedUrl (js ''http://'') \<and> \<not> startsWith trimmedUrl (js ''https://'')
      then js ''https://'' @ trimmedUrl else trimmedUrl)"

definition validate :: "(jsstring \<Rightarrow> URL option) \<Rightarrow> jsstring \<Rightarrow> ValidationResult" where
  "validate newURL url =
     (let trimmedUrl = trim url in
      if trimmedUrl = [] then rejected ''URL is required''
      else
        let normalized = addProtocol trimmedUrl in
        if \<not> URL_REGEX_test normalized then rejected ''Please enter a valid URL''
        else
          case newURL normalized of
            None \<Rightarrow> rejected ''Invalid URL format''
          | Some urlObj \<Rightarrow>
              if protocol urlObj \<notin> {js ''http:'', js ''https:''}
              then rejected ''Only HTTP and HTTPS URLs are allowed''
              else if containsUnsafePatterns normalized
              then rejected ''URL contains potentially unsafe content''
              else accepted (href urlObj))"

text \<open>\<^verbatim>\<open>result.normalizedUrl || url\<close>: the raw input when the field is absent or empty.\<close>

definition sanitize :: "(jsstring \<Rightarrow> URL option) \<Rightarrow> jsstring \<Rightarrow> jsstring" where
  "sanitize newURL url =
     (case normalizedUrl (validate newURL url) of
        None \<Rightarrow> url
      | Some n \<Rightarrow> if n = [] then url else n)"

section \<open>Sanitization utilities\<close>

text \<open>The class \<^verbatim>\<open>[\u0000-\u001F\u007F-\u009F]\<close> of \<^verbatim>\<open>sanitizeText\<close>.\<close>

definition isControl :: "nat \<Rightarrow> bool" where
  "isControl c \<longleftrightarrow> c \<le> 0x1F \<or> (0x7F \<le> c \<and> c \<le> 0x9F)"

text \<open>
  \<^verbatim>\<open>.replace(/\s+/g, ' ')\<close>: every maximal run of white space becomes one space. \<open>inRun\<close>
  says that the previous character belonged to a run whose space is already written.
\<close>

fun collapseWhiteSpace :: "bool \<Rightarrow> jsstring \<Rightarrow> jsstring" where
  "collapseWhiteSpace inRun [] = []"
| "collapseWhiteSpace inRun (c # cs) =
     (if isWhiteSpace c
      then (if inRun then collapseWhiteSpace True cs else 32 # collapseWhiteSpace True cs)
      else c # collapseWhiteSpace False cs)"

definition sanitizeText :: "jsstring \<Rightarrow> jsstring" where
  "sanitizeText text = collapseWhiteSpace False (filter (\<lambda>c. \<not> isControl c) (trim text))"

text \<open>\<^verbatim>\<open>arr.indexOf(x)\<close>: the first index at which \<open>x\<close> occurs, \<open>-1\<close> when it does not.\<close>

fun indexOf :: "jsstring list \<Rightarrow> jsstring \<Rightarrow> int" where
  "indexOf [] x = - 1"
| "indexOf (y # ys) x =
     (if y = x then 0 else (let i = indexOf ys x in if i < 0 then - 1 else i + 1))"

text \<open>\<^verbatim>\<open>.filter((tag, index, arr) => arr.indexOf(tag) === index)\<close>\<close>

definition removeDuplicates :: "jsstring list \<Rightarrow> jsstring list" where
  "removeDuplicates arr =
     map snd (filter (\<lambda>(index, tag). indexOf arr tag = int index) (enumerate 0 arr))"

definition sanitizeTags :: "jsstring list \<Rightarrow> jsstring list" where
  "sanitizeTags tags =
     take 10 (removeDuplicates (filter (\<lambda>tag. length tag > 0) (map sanitizeText tags)))"

text \<open>
  The reading of the specification, to compare \<open>sanitizeTags\<close> with: an element is kept
  unless an equal one came before it (\<open>seen\<close> holds the earlier elements).
\<close>

fun keepFirstOccurrences :: "jsstring list \<Rightarrow> jsstring list \<Rightarrow> jsstring list" where
  "keepFirstOccurrences seen [] = []"
| "keepFirstOccurrences seen (x # xs) =
     (if x \<in> set seen then keepFirstOccurrences seen xs
      else x # keepFirstOccurrences (x # seen) xs)"

text \<open>
  The specification's reading of \<open>sanitizeText\<close>: trim, drop every control character
  (\<open>0\<close> to \<open>31\<close> and \<open>127\<close> to \<open>159\<close>), then replace each maximal run of white space
  by one space.
\<close>

function collapseRuns :: "jsstring \<Rightarrow> jsstring" where
  "collapseRuns [] = []"
| "collapseRuns (c # cs) =
     (if isWhiteSpace c then 32 # collapseRuns (dropWhile isWhiteSpace cs)
      else c # collapseRuns cs)"
  by pat_completeness auto
termination
  by (relation "measure length") (auto simp: less_Suc_eq_le length_dropWhile_le)

definition sanitizeText_spec :: "jsstring \<Rightarrow> jsstring" where
  "sanitizeText_spec text =
     collapseRuns (filter (\<lambda>c. \<not> (c \<le> 31 \<or> (127 \<le> c \<and> c \<le> 159))) (trim text))"

definition sanitizeTags_spec :: "jsstring list \<Rightarrow> jsstring list" where
  "sanitizeTags_spec tags =
     take 10 (keepFirstOccurrences [] (filter (\<lambda>t. t \<noteq> []) (map sanitizeText_spec tags)))"

text \<open>
  What a sanitized text looks like: it has no control character, and every white space
  character in it is a space that is not followed by another white space character.
\<close>

fun singleSpaced :: "jsstring \<Rightarrow> bool" where
  "singleSpaced [] = True"
| "singleSpaced [c] = (isWhiteSpace c \<longrightarrow> c = 32)"
| "singleSpaced (c # d # cs) =
     ((isWhiteSpace c \<longrightarrow> c = 32 \<and> \<not> isWhiteSpace d) \<and> singleSpaced (d # cs))"

definition cleanText :: "jsstring \<Rightarrow> bool" where
  "cleanText s \<longleftrightarrow> (\<forall>c \<in> set s. \<not> (c \<le> 31 \<or> (127 \<le> c \<and> c \<le> 159))) \<and> singleSpaced s"

text \<open>
  \<^verbatim>\<open>sanitizeTitle\<close> removes every match of
  \<^verbatim>\<open>/<script\b[^<]*(?:(?!<\/script>)<[^<]*)*<\/script>/gi\<close>. A match starts at \<^verbatim>\<open><script\<close> followed
  by a word boundary; \<^verbatim>\<open>[^<]*\<close> and the group then run from one \<^verbatim>\<open><\<close> to the next, and the
  look-ahead stops the group at the first \<^verbatim>\<open></script>\<close>, where the match ends. Without a
  closing tag there is no match.
\<close>

definition startsWith_ci :: "jsstring \<Rightarrow> jsstring \<Rightarrow> bool" where
  "startsWith_ci s p \<longleftrightarrow> map canonicalize (take (length p) s) = map canonicalize p"

text \<open>The offset just after the first \<^verbatim>\<open></script>\<close> (ignoring case), if there is one.\<close>

fun closingTagEnd :: "jsstring \<Rightarrow> nat option" where
  "closingTagEnd [] = None"
| "closingTagEnd (c # cs) =
     (if startsWith_ci (c # cs) (js ''</script>'') then Some 9
      else map_option Suc (closingTagEnd cs))"

text \<open>The length of a match that starts at the first character of \<open>s\<close>.\<close>

definition matchScript :: "jsstring \<Rightarrow> nat option" where
  "matchScript s =
     (if startsWith_ci s (js ''<script'')
      then (case drop 7 s of
              [] \<Rightarrow> None
            | c # cs \<Rightarrow>
                if isWordChar c then None
                else map_option (\<lambda>n. 7 + n) (closingTagEnd (c # cs)))
      else None)"

text \<open>
  The global replacement by the empty string: \<open>skip\<close> characters of a match are still to
  be dropped; after a match the search resumes behind it.
\<close>

fun stripScripts :: "nat \<Rightarrow> jsstring \<Rightarrow> jsstring" where
  "stripScripts skip [] = []"
| "stripScripts skip (c # cs) =
     (if 0 < skip then stripScripts (skip - 1) cs
      else (case matchScript (c # cs) of
              Some n \<Rightarrow> stripScripts (n - 1) cs
            | None \<Rightarrow> c # stripScripts 0 cs))"

definition sanitizeTitle :: "jsstring \<Rightarrow> jsstring" where
  "sanitizeTitle title = stripScripts 0 (sanitizeText title)"

text \<open>\<^verbatim>\<open>s.split('\n')\<close> and \<^verbatim>\<open>parts.join('\n')\<close>\<close>

fun splitOn :: "nat \<Rightarrow> jsstring \<Rightarrow> jsstring list" where
  "splitOn sep [] = [[]]"
| "splitOn sep (c # cs) =
     (if c = sep then [] # splitOn sep cs
      else (case splitOn sep cs of [] \<Rightarrow> [[c]] | x # xs \<Rightarrow> (c # x) # xs))"

definition joinWith :: "nat \<Rightarrow> jsstring list \<Rightarrow> jsstring" where
  "joinWith sep parts =
     (case parts of [] \<Rightarrow> [] | x # xs \<Rightarrow> x @ concat (map (\<lambda>y. sep # y) xs))"

definition sanitizeDescription :: "jsstring \<Rightarrow> jsstring" where
  "sanitizeDescription description =
     joinWith 10 (map trim (splitOn 10 (sanitizeText description)))"

text \<open>\<^verbatim>\<open>sanitized.replace(/[^a-zA-Z0-9\-_\s]/g, '').trim()\<close>\<close>

definition sanitizeAuthor :: "jsstring \<Rightarrow> jsstring" where
  "sanitizeAuthor author =
     trim (filter (\<lambda>c. isAlnum c \<or> c = 45 \<or> c = 95 \<or> isWhiteSpace c) (sanitizeText author))"

section \<open>Game data and the submission check\<close>

record GameSubmissionData =
  title :: jsstring
  url :: jsstring
  description :: "jsstring option"
  author :: "jsstring option"
  tags :: "jsstring list"

datatype GameStatus = Active | Hidden

text \<open>
  The interface \<^verbatim>\<open>Game\<close>: the fields of a submission and those the system assigns.
  \<open>submittedAt\<close> is an ISO 8601 string as \<^verbatim>\<open>toISOString\<close> writes it (fixed width, UTC), so the
  later of two instants is the greater string. \<open>playCount\<close> is a JavaScript number, a
  double; the model holds the integer-valued ones.
\<close>

record Game = GameSubmissionData +
  game_id :: jsstring
  submittedAt :: jsstring
  featured :: bool
  playCount :: int
  status :: GameStatus

text \<open>
  \<^verbatim>\<open>n + 1\<close> on an integer-valued double \<open>n\<close>. The sum is exact while it has magnitude at
  most \<open>2 ^ 53\<close>. Beyond that the doubles are two apart up to \<open>2 ^ 54\<close>, so the sum lies
  half way between \<open>n\<close> and \<open>n + 2\<close> and is rounded to the one with the even significand;
  from \<open>2 ^ 54\<close> on they are at least four apart and the sum is rounded back to \<open>n\<close>.
\<close>

definition jsAddOne :: "int \<Rightarrow> int" where
  "jsAddOne n =
     (if \<bar>n + 1\<bar> \<le> 2 ^ 53 then n + 1
      else if \<bar>n\<bar> < 2 ^ 54 then (if even (n div 2) then n else n + 2)
      else n)"

definition TITLE_MAX_LENGTH :: nat where "TITLE_MAX_LENGTH = 100"
definition DESCRIPTION_MAX_LENGTH :: nat where "DESCRIPTION_MAX_LENGTH = 500"
definition AUTHOR_MAX_LENGTH :: nat where "AUTHOR_MAX_LENGTH = 50"
definition TAG_MAX_LENGTH :: nat where "TAG_MAX_LENGTH = 20"
definition MAX_TAGS :: nat where "MAX_TAGS = 10"

text \<open>A number inside a template literal: its decimal digits.\<close>

function decimal :: "nat \<Rightarrow> jsstring" where
  "decimal n = (if n < 10 then [48 + n] else decimal (n div 10) @ [48 + n mod 10])"
  by pat_completeness auto
termination
  by (relation "measure (\<lambda>n. n)") auto

declare decimal.simps [simp del]

record DataValidation =
  dataIsValid :: bool
  errors :: "jsstring list"

definition validateGameData :: "GameSubmissionData \<Rightarrow> DataValidation" where
  "validateGameData data =
     (let errs =
        (if trim (title data) = [] then [js ''Title is required'']
         else if length (title data) > TITLE_MAX_LENGTH
         then [js ''Title must be less than '' @ decimal TITLE_MAX_LENGTH @ js '' characters'']
         else [])
        @ (if trim (url data) = [] then [js ''URL is required''] else [])
        @ (case description data of
             Some d \<Rightarrow>
               if length d > DESCRIPTION_MAX_LENGTH
               then [js ''Description must be less than '' @ decimal DESCRIPTION_MAX_LENGTH
                     @ js '' characters'']
               else []
           | None \<Rightarrow> [])
        @ (case author data of
             Some a \<Rightarrow>
               if length a > AUTHOR_MAX_LENGTH
               then [js ''Author name must be less than '' @ decimal AUTHOR_MAX_LENGTH
                     @ js '' characters'']
               else []
           | None \<Rightarrow> [])
        @ (if length (tags data) > MAX_TAGS
           then [js ''Maximum '' @ decimal MAX_TAGS @ js '' tags allowed''] else [])
        @ concat (map (\<lambda>(index, tag).
                         if length tag > TAG_MAX_LENGTH
                         then [js ''Tag '' @ decimal (index + 1) @ js '' must be less than ''
                               @ decimal TAG_MAX_LENGTH @ js '' characters'']
                         else [])
                      (enumerate 0 (tags data)))
      in \<lparr> dataIsValid = (length errs = 0), errors = errs \<rparr>)"

section \<open>GameStorage on localStorage\<close>

text \<open>
  What the key \<^verbatim>\<open>STORAGE_KEYS.GAMES\<close> holds: nothing, a string that does not parse to an
  array, or the JSON text of an array of games. \<^verbatim>\<open>localStorage.setItem\<close> either stores the
  whole string or throws and stores nothing; which of the two depends on the browser's
  quota, so it is a parameter \<open>setItem\<close> of every operation that writes.
\<close>

datatype storage = NoItem | Garbage | GamesJSON "Game list"

datatype write_result = Written | QuotaExceededError | OtherWriteError

datatype storage_error =
    InvalidURL "jsstring option"
  | GameNotFound
  | StorageQuotaExceeded
  | SaveFailed
  | JSONSyntaxError
  | MissingGamesArray
  | InvalidGameData
  | ImportFailed storage_error

text \<open>An operation returns the error it throws, if any, and the storage it leaves.\<close>

type_synonym outcome = "storage_error option \<times> storage"

definition saveGames :: "(Game list \<Rightarrow> write_result) \<Rightarrow> Game list \<Rightarrow> storage \<Rightarrow> outcome" where
  "saveGames setItem games st =
     (case setItem games of
        Written \<Rightarrow> (None, GamesJSON games)
      | QuotaExceededError \<Rightarrow> (Some StorageQuotaExceeded, st)
      | OtherWriteError \<Rightarrow> (Some SaveFailed, st))"

definition GameStorage_getAll :: "storage \<Rightarrow> Game list" where
  "GameStorage_getAll st = (case st of GamesJSON games \<Rightarrow> games | _ \<Rightarrow> [])"

definition GameStorage_getById :: "storage \<Rightarrow> jsstring \<Rightarrow> Game option" where
  "GameStorage_getById st i = find (\<lambda>game. game_id game = i) (GameStorage_getAll st)"

definition GameStorage_save ::
  "(Game list \<Rightarrow> write_result) \<Rightarrow> (jsstring \<Rightarrow> URL option) \<Rightarrow> jsstring \<Rightarrow> jsstring
     \<Rightarrow> GameSubmissionData \<Rightarrow> storage \<Rightarrow> outcome" where
  "GameStorage_save setItem newURL uuid now game st =
     (let validation = validate newURL (url game) in
      if \<not> isValid validation then (Some (InvalidURL (error validation)), st)
      else
        let newGame = \<lparr> title = trim (title game),
                        url = (case normalizedUrl validation of Some n \<Rightarrow> n | None \<Rightarrow> []),
                        description = map_option trim (description game),
                        author = map_option trim (author game),
                        tags = filter (\<lambda>tag. tag \<noteq> []) (map trim (tags game)),
                        game_id = uuid,
                        submittedAt = now,
                        featured = False,
                        playCount = 0,
                        status = Active \<rparr>;
            existingGames = GameStorage_getAll st;
            updatedGames = existingGames @ [newGame]
        in saveGames setItem updatedGames st)"

text \<open>\<^verbatim>\<open>Partial<Game>\<close>: each field may be absent.\<close>

record GameUpdates =
  upd_id :: "jsstring option"
  upd_title :: "jsstring option"
  upd_url :: "jsstring option"
  upd_description :: "jsstring option"
  upd_author :: "jsstring option"
  upd_tags :: "jsstring list option"
  upd_submittedAt :: "jsstring option"
  upd_featured :: "bool option"
  upd_playCount :: "int option"
  upd_status :: "GameStatus option"

definition noUpdates :: GameUpdates where
  "noUpdates = \<lparr> upd_id = None, upd_title = None, upd_url = None, upd_description = None,
                 upd_author = None, upd_tags = None, upd_submittedAt = None,
                 upd_featured = None, upd_playCount = None, upd_status = None \<rparr>"

definition orElse :: "'a option \<Rightarrow> 'a \<Rightarrow> 'a" where
  "orElse x d = (case x of Some v \<Rightarrow> v | None \<Rightarrow> d)"

text \<open>The spread \<^verbatim>\<open>{ ...game, ...updates }\<close>\<close>

definition applyUpdates :: "Game \<Rightarrow> GameUpdates \<Rightarrow> Game" where
  "applyUpdates game updates =
     \<lparr> title = orElse (upd_title updates) (title game),
       url = orElse (upd_url updates) (url game),
       description = (case upd_description updates of Some d \<Rightarrow> Some d | None \<Rightarrow> description game),
       author = (case upd_author updates of Some a \<Rightarrow> Some a | None \<Rightarrow> author game),
       tags = orElse (upd_tags updates) (tags game),
       game_id = orElse (upd_id updates) (game_id game),
       submittedAt = orElse (upd_submittedAt updates) (submittedAt game),
       featured = orElse (upd_featured updates) (featured game),
       playCount = orElse (upd_playCount updates) (playCount game),
       status = orElse (upd_status updates) (status game) \<rparr>"

text \<open>\<^verbatim>\<open>findIndex\<close>; \<open>None\<close> stands for its \<open>-1\<close>.\<close>

fun findIndex :: "('a \<Rightarrow> bool) \<Rightarrow> 'a list \<Rightarrow> nat option" where
  "findIndex P [] = None"
| "findIndex P (x # xs) = (if P x then Some 0 else map_option Suc (findIndex P xs))"

definition GameStorage_update ::
  "(Game list \<Rightarrow> write_result) \<Rightarrow> (jsstring \<Rightarrow> URL option) \<Rightarrow> jsstring \<Rightarrow> GameUpdates
     \<Rightarrow> storage \<Rightarrow> outcome" where
  "GameStorage_update setItem newURL i updates st =
     (let games = GameStorage_getAll st in
      case findIndex (\<lambda>game. game_id game = i) games of
        None \<Rightarrow> (Some GameNotFound, st)
      | Some gameIndex \<Rightarrow>
          (case upd_url updates of
             Some u \<Rightarrow>
               if u \<noteq> [] then
                 (let validation = validate newURL u in
                  if \<not> isValid validation then (Some (InvalidURL (error validation)), st)
                  else saveGames setItem
                         (games[gameIndex :=
                            applyUpdates (games ! gameIndex)
                              (updates\<lparr> upd_url := normalizedUrl validation \<rparr>)]) st)
               else saveGames setItem (games[gameIndex := applyUpdates (games ! gameIndex) updates]) st
           | None \<Rightarrow>
               saveGames setItem (games[gameIndex := applyUpdates (games ! gameIndex) updates]) st))"

definition GameStorage_delete ::
  "(Game list \<Rightarrow> write_result) \<Rightarrow> jsstring \<Rightarrow> storage \<Rightarrow> outcome" where
  "GameStorage_delete setItem i st =
     (let games = GameStorage_getAll st;
          filteredGames = filter (\<lambda>game. game_id game \<noteq> i) games
      in saveGames setItem filteredGames st)"

text \<open>
  The argument of \<^verbatim>\<open>import\<close> after \<^verbatim>\<open>JSON.parse\<close>: not JSON at all, JSON without an array
  \<^verbatim>\<open>games\<close>, or an array whose entries either pass \<^verbatim>\<open>isValidGame\<close> (and are games) or do not.
\<close>

datatype import_data = NotJSON | NoGamesArray | GamesArray "Game option list"

definition GameStorage_import ::
  "(Game list \<Rightarrow> write_result) \<Rightarrow> import_data \<Rightarrow> storage \<Rightarrow> outcome" where
  "GameStorage_import setItem data st =
     (case data of
        NotJSON \<Rightarrow> (Some (ImportFailed JSONSyntaxError), st)
      | NoGamesArray \<Rightarrow> (Some (ImportFailed MissingGamesArray), st)
      | GamesArray entries \<Rightarrow>
          (case those entries of
             None \<Rightarrow> (Some (ImportFailed InvalidGameData), st)
           | Some games \<Rightarrow>
               (case saveGames setItem games st of
                  (Some e, st') \<Rightarrow> (Some (ImportFailed e), st')
                | (None, st') \<Rightarrow> (None, st'))))"

definition GameStorage_incrementPlayCount ::
  "(Game list \<Rightarrow> write_result) \<Rightarrow> (jsstring \<Rightarrow> URL option) \<Rightarrow> jsstring \<Rightarrow> storage \<Rightarrow> outcome" where
  "GameStorage_incrementPlayCount setItem newURL i st =
     (case GameStorage_getById st i of
        Some game \<Rightarrow>
          GameStorage_update setItem newURL i
            (noUpdates\<lparr> upd_playCount := Some (jsAddOne (playCount game)) \<rparr>) st
      | None \<Rightarrow> (None, st))"

text \<open>
  The filter object of \<^verbatim>\<open>getFiltered\<close>; every field is optional. \<^verbatim>\<open>toLowerCase\<close> is the
  platform's (it follows the Unicode case mappings), so \<open>getFiltered\<close> takes it as a
  parameter; \<open>asciiLowerCase\<close> is what it does on ASCII strings.
\<close>

datatype StatusFilter = FilterActive | FilterHidden | FilterAll

record GameFilterOptions =
  searchTerm :: "jsstring option"
  filterTags :: "jsstring list option"
  filterFeatured :: "bool option"
  filterStatus :: "StatusFilter option"

definition asciiLowerCase :: "jsstring \<Rightarrow> jsstring" where
  "asciiLowerCase s = map asciiLower s"

text \<open>\<^verbatim>\<open>game.status === filters.status\<close>\<close>

fun statusIs :: "GameStatus \<Rightarrow> StatusFilter \<Rightarrow> bool" where
  "statusIs Active FilterActive = True"
| "statusIs Hidden FilterHidden = True"
| "statusIs _ _ = False"

definition matchesSearch :: "(jsstring \<Rightarrow> jsstring) \<Rightarrow> jsstring \<Rightarrow> Game \<Rightarrow> bool" where
  "matchesSearch toLowerCase term game =
     (let searchLower = toLowerCase term;
          matchesTitle = str_includes (toLowerCase (title game)) searchLower;
          matchesDescription =
            (case description game of Some d \<Rightarrow> str_includes (toLowerCase d) searchLower
             | None \<Rightarrow> False);
          matchesAuthor =
            (case author game of Some a \<Rightarrow> str_includes (toLowerCase a) searchLower
             | None \<Rightarrow> False)
      in matchesTitle \<or> matchesDescription \<or> matchesAuthor)"

definition GameStorage_getFiltered ::
  "(jsstring \<Rightarrow> jsstring) \<Rightarrow> GameFilterOptions \<Rightarrow> storage \<Rightarrow> Game list" where
  "GameStorage_getFiltered toLowerCase filters st =
     filter (\<lambda>game.
        if (case filterStatus filters of
              Some s \<Rightarrow> s \<noteq> FilterAll \<and> \<not> statusIs (status game) s | None \<Rightarrow> False)
        then False
        else if (case filterFeatured filters of Some f \<Rightarrow> featured game \<noteq> f | None \<Rightarrow> False)
        then False
        else if (case searchTerm filters of
                   Some term \<Rightarrow> term \<noteq> [] \<and> \<not> matchesSearch toLowerCase term game
                 | None \<Rightarrow> False)
        then False
        else if (case filterTags filters of
                   Some ts \<Rightarrow>
                     length ts > 0
                     \<and> \<not> list_ex (\<lambda>filterTag.
                            list_ex (\<lambda>gameTag.
                              str_includes (toLowerCase gameTag) (toLowerCase filterTag))
                              (tags game)) ts
                 | None \<Rightarrow> False)
        then False
        else True)
       (GameStorage_getAll st)"

section \<open>GameStorage on Supabase\<close>

text \<open>
  The second \<^verbatim>\<open>GameStorage\<close> class keeps the games in the table \<^verbatim>\<open>games\<close> of a hosted
  database. A row is modelled by a \<open>Game\<close> (the columns \<^verbatim>\<open>submitted_at\<close> and \<^verbatim>\<open>play_count\<close>
  are \<open>submittedAt\<close> and \<open>playCount\<close>, \<^verbatim>\<open>NULL\<close> is \<open>None\<close>), the table by the list of its
  rows, and a request that comes back with an error by \<open>None\<close>. Of the query builder:
  \<^verbatim>\<open>.eq(column, v)\<close> keeps the rows whose column equals \<open>v\<close>, \<^verbatim>\<open>.contains('tags', ts)\<close> is
  PostgreSQL's array containment (every element of \<open>ts\<close> is an element of the row's
  \<^verbatim>\<open>tags\<close>), and \<^verbatim>\<open>.order('submitted_at', { ascending: false })\<close> sorts by descending time.
\<close>

definition transformFromDb :: "Game \<Rightarrow> Game" where
  "transformFromDb row =
     row\<lparr> description := (case description row of Some d \<Rightarrow> if d = [] then None else Some d
                           | None \<Rightarrow> None),
          author := (case author row of Some a \<Rightarrow> if a = [] then None else Some a
                     | None \<Rightarrow> None) \<rparr>"

definition orderBySubmittedAtDesc :: "Game list \<Rightarrow> Game list" where
  "orderBySubmittedAtDesc rows = rev (sort_key submittedAt rows)"

definition Supabase_getAll :: "Game list option \<Rightarrow> Game list" where
  "Supabase_getAll db =
     (case db of
        None \<Rightarrow> []
      | Some rows \<Rightarrow> map transformFromDb (orderBySubmittedAtDesc rows))"

definition Supabase_getFiltered ::
  "(jsstring \<Rightarrow> jsstring) \<Rightarrow> GameFilterOptions \<Rightarrow> Game list option \<Rightarrow> Game list" where
  "Supabase_getFiltered toLowerCase filters db =
     (case db of
        None \<Rightarrow> []
      | Some rows \<Rightarrow>
          let q1 = (case filterStatus filters of
                      Some s \<Rightarrow>
                        if s \<noteq> FilterAll then filter (\<lambda>row. statusIs (status row) s) rows
                        else rows
                    | None \<Rightarrow> rows);
              q2 = (case filterFeatured filters of
                      Some f \<Rightarrow> filter (\<lambda>row. featured row = f) q1
                    | None \<Rightarrow> q1);
              q3 = (case filterTags filters of
                      Some ts \<Rightarrow>
                        if length ts > 0
                        then filter (\<lambda>row. list_all (\<lambda>t. t \<in> set (tags row)) ts) q2
                        else q2
                    | None \<Rightarrow> q2);
              games = map transformFromDb (orderBySubmittedAtDesc q3)
          in case searchTerm filters of
               Some term \<Rightarrow>
                 if term \<noteq> [] then filter (matchesSearch toLowerCase term) games else games
             | None \<Rightarrow> games)"

section \<open>The submission form\<close>

text \<open>
  \<^verbatim>\<open>addGame\<close> of the hook \<^verbatim>\<open>useGameStorage\<close> and \<^verbatim>\<open>handleSubmit\<close> of the component
  \<^verbatim>\<open>GameSubmission\<close>. \<open>validationResult\<close> is the state of the hook \<^verbatim>\<open>useUrlValidation\<close> when
  the form is submitted (\<open>None\<close>: nothing validated yet). The result is the list the
  handler passes to \<^verbatim>\<open>setValidationErrors\<close> and the storage it leaves.
\<close>

definition addGame ::
  "(Game list \<Rightarrow> write_result) \<Rightarrow> (jsstring \<Rightarrow> URL option) \<Rightarrow> jsstring \<Rightarrow> jsstring
     \<Rightarrow> GameSubmissionData \<Rightarrow> storage \<Rightarrow> bool \<times> storage" where
  "addGame setItem newURL uuid now gameData st =
     (case GameStorage_save setItem newURL uuid now gameData st of
        (None, st') \<Rightarrow> (True, st')
      | (Some e, st') \<Rightarrow> (False, st'))"

definition handleSubmit ::
  "ValidationResult option \<Rightarrow> (Game list \<Rightarrow> write_result) \<Rightarrow> (jsstring \<Rightarrow> URL option)
     \<Rightarrow> jsstring \<Rightarrow> jsstring \<Rightarrow> GameSubmissionData \<Rightarrow> storage \<Rightarrow> jsstring list \<times> storage" where
  "handleSubmit validationResult setItem newURL uuid now formData st =
     (let sanitizedData =
            \<lparr> title = sanitizeTitle (title formData),
              url = trim (url formData),
              description = (case description formData of
                               Some d \<Rightarrow> if d \<noteq> [] then Some (sanitizeDescription d) else None
                             | None \<Rightarrow> None),
              author = (case author formData of
                          Some a \<Rightarrow> if a \<noteq> [] then Some (sanitizeAuthor a) else None
                        | None \<Rightarrow> None),
              tags = sanitizeTags (tags formData) \<rparr>;
          validation = validateGameData sanitizedData;
          urlIsValid = (case validationResult of Some r \<Rightarrow> isValid r | None \<Rightarrow> False);
          urlError = (case validationResult of Some r \<Rightarrow> error r | None \<Rightarrow> None)
      in if \<not> dataIsValid validation then (errors validation, st)
         else if \<not> urlIsValid
         then ([case urlError of
                  Some e \<Rightarrow> if e \<noteq> [] then e else js ''Please enter a valid URL''
                | None \<Rightarrow> js ''Please enter a valid URL''], st)
         else
           (case addGame setItem newURL uuid now sanitizedData st of
              (True, st') \<Rightarrow> ([], st')
            | (False, st') \<Rightarrow> ([js ''Failed to submit game. Please try again.''], st')))"

section \<open>Vocabulary of the properties\<close>

text \<open>Two strings are the same up to the case of ASCII letters.\<close>

definition sameIgnoringCase :: "jsstring \<Rightarrow> jsstring \<Rightarrow> bool" where
  "sameIgnoringCase a b \<longleftrightarrow> map asciiLower a = map asciiLower b"

text \<open>\<open>snippet\<close> occurs somewhere in \<open>s\<close>, in any mix of upper and lower case.\<close>

definition containsIgnoringCase :: "jsstring \<Rightarrow> jsstring \<Rightarrow> bool" where
  "containsIgnoringCase s snippet \<longleftrightarrow>
     (\<exists>pre mid suf. s = pre @ mid @ suf \<and> sameIgnoringCase mid snippet)"

text \<open>Newest first: no record stands before one that was submitted later.\<close>

definition newestFirst :: "Game list \<Rightarrow> bool" where
  "newestFirst games \<longleftrightarrow> sorted_wrt (\<lambda>a b. \<not> submittedAt a < submittedAt b) games"

text \<open>
  A record has a tag whose lower-cased text contains one of the lower-cased requested tags.
\<close>

definition hasRequestedTag :: "(jsstring \<Rightarrow> jsstring) \<Rightarrow> jsstring list \<Rightarrow> Game \<Rightarrow> bool" where
  "hasRequestedTag toLowerCase requested game \<longleftrightarrow>
     (\<exists>tag \<in> set (tags game). \<exists>req \<in> set requested.
        \<exists>pre suf. toLowerCase tag = pre @ toLowerCase req @ suf)"

text \<open>
  What the platform's parser is known to do with a string that begins with \<^verbatim>\<open>https://\<close>: the
  scheme of the URL it returns is \<^verbatim>\<open>https\<close>.
\<close>

definition keepsHttpsScheme :: "(jsstring \<Rightarrow> URL option) \<Rightarrow> bool" where
  "keepsHttpsScheme newURL \<longleftrightarrow>
     (\<forall>t u. newURL (js ''https://'' @ t) = Some u \<longrightarrow> scheme u = js ''https'')"

section \<open>Example data\<close>

text \<open>Two submissions, the games they become, and two behaviours of the browser's storage.\<close>

definition snakeForm :: GameSubmissionData where
  "snakeForm = \<lparr> title = js ''Snake'', url = js ''codepen.io/x'', description = None,
                 author = None, tags = [js ''arcade''] \<rparr>"

definition pongForm :: GameSubmissionData where
  "pongForm = \<lparr> title = js ''Pong'', url = js ''https://codepen.io/y'', description = None,
                author = Some (js ''Demo User''), tags = [js ''classic'', js ''Puzzles''] \<rparr>"

definition snake :: Game where
  "snake = \<lparr> title = js ''Snake'', url = js ''https://codepen.io/x'', description = None,
             author = None, tags = [js ''arcade''], game_id = js ''id-1'',
             submittedAt = js ''2024-01-01T00:00:00.000Z'', featured = False, playCount = 0,
             status = Active \<rparr>"

definition pong :: Game where
  "pong = \<lparr> title = js ''Pong'', url = js ''https://codepen.io/y'', description = None,
            author = Some (js ''Demo User''), tags = [js ''classic'', js ''Puzzles''],
            game_id = js ''id-2'', submittedAt = js ''2024-01-02T00:00:00.000Z'',
            featured = False, playCount = 0, status = Active \<rparr>"



definition alwaysWritten :: "Game list \<Rightarrow> write_result" where
  "alwaysWritten games = Written"

definition quotaFull :: "Game list \<Rightarrow> write_result" where
  "quotaFull games = QuotaExceededError"

text \<open>The storage after the two submissions were saved, one day apart, into an empty one.\<close>

definition twoSaves :: storage where
  "twoSaves =
     snd (GameStorage_save alwaysWritten new_URL (js ''id-2'') (js ''2024-01-02T00:00:00.000Z'')
            pongForm
            (snd (GameStorage_save alwaysWritten new_URL (js ''id-1'')
                    (js ''2024-01-01T00:00:00.000Z'') snakeForm NoItem)))"

text \<open>A filter that asks for tags only.\<close>

definition tagsOnly :: "jsstring list \<Rightarrow> GameFilterOptions" where
  "tagsOnly requested =
     \<lparr> searchTerm = None, filterTags = Some requested, filterFeatured = None,
       filterStatus = None \<rparr>"

section \<open>Strings and the denylist\<close>

lemma canonicalize_eq_iff: "canonicalize x = canonicalize y \<longleftrightarrow> asciiLower x = asciiLower y"
  unfolding canonicalize_def asciiLower_def by (auto split: if_splits)

lemma map_canonicalize_eq_iff:
  "map canonicalize xs = map canonicalize ys \<longleftrightarrow> map asciiLower xs = map asciiLower ys"
  by (induction xs ys rule: list_induct2') (simp_all add: canonicalize_eq_iff)

lemma startsWith_iff: "startsWith s p \<longleftrightarrow> (\<exists>suf. s = p @ suf)"
  unfolding startsWith_def
proof
  assume "take (length p) s = p"
  then have "s = p @ drop (length p) s" by (metis append_take_drop_id)
  then show "\<exists>suf. s = p @ suf" ..
next
  assume "\<exists>suf. s = p @ suf"
  then show "take (length p) s = p" by auto
qed

lemma str_includes_iff: "str_includes s sub \<longleftrightarrow> (\<exists>pre suf. s = pre @ sub @ suf)"
proof (induction s)
  case Nil
  show ?case by auto
next
  case (Cons c cs)
  show ?case
  proof
    assume "str_includes (c # cs) sub"
    then consider "startsWith (c # cs) sub" | "str_includes cs sub" by auto
    then show "\<exists>pre suf. c # cs = pre @ sub @ suf"
    proof cases
      case 1
      then obtain suf where "c # cs = sub @ suf" by (auto simp: startsWith_iff)
      then have "c # cs = [] @ sub @ suf" by simp
      then show ?thesis by blast
    next
      case 2
      then obtain pre suf where "cs = pre @ sub @ suf" using Cons.IH by auto
      then have "c # cs = (c # pre) @ sub @ suf" by simp
      then show ?thesis by blast
    qed
  next
    assume "\<exists>pre suf. c # cs = pre @ sub @ suf"
    then obtain pre suf where eq: "c # cs = pre @ sub @ suf" by auto
    show "str_includes (c # cs) sub"
    proof (cases pre)
      case Nil
      with eq have "startsWith (c # cs) sub" by (auto simp: startsWith_iff)
      then show ?thesis by simp
    next
      case (Cons p ps)
      with eq have "cs = ps @ sub @ suf" by simp
      then have "str_includes cs sub" using Cons.IH by blast
      then show ?thesis by simp
    qed
  qed
qed

lemma test_ci_iff: "test_ci pat s \<longleftrightarrow> containsIgnoringCase s pat"
proof
  assume "test_ci pat s"
  then obtain pre suf where "map canonicalize s = pre @ map canonicalize pat @ suf"
    by (auto simp: test_ci_def str_includes_iff)
  then obtain a b c where "s = a @ b @ c" "map canonicalize b = map canonicalize pat"
    by (auto simp: map_eq_append_conv append_eq_map_conv)
  then show "containsIgnoringCase s pat"
    unfolding containsIgnoringCase_def sameIgnoringCase_def
    by (auto simp: map_canonicalize_eq_iff)
next
  assume "containsIgnoringCase s pat"
  then obtain a b c where s: "s = a @ b @ c" and "map asciiLower b = map asciiLower pat"
    unfolding containsIgnoringCase_def sameIgnoringCase_def by auto
  then have "map canonicalize b = map canonicalize pat" by (simp add: map_canonicalize_eq_iff)
  then have "map canonicalize s = map canonicalize a @ map canonicalize pat @ map canonicalize c"
    using s by simp
  then show "test_ci pat s" unfolding test_ci_def str_includes_iff by blast
qed

lemma dropWhile_keeps_infix:
  "mid \<noteq> [] \<Longrightarrow> \<not> P (hd mid) \<Longrightarrow> \<exists>pre'. dropWhile P (pre @ mid @ suf) = pre' @ mid @ suf"
proof (induction pre)
  case Nil
  then have "dropWhile P (mid @ suf) = mid @ suf" by (cases mid) auto
  then have "dropWhile P ([] @ mid @ suf) = [] @ mid @ suf" by simp
  then show ?case by blast
next
  case (Cons a pre)
  show ?case
  proof (cases "P a")
    case True
    then show ?thesis using Cons by simp
  next
    case False
    then have "dropWhile P ((a # pre) @ mid @ suf) = (a # pre) @ mid @ suf" by simp
    then show ?thesis by blast
  qed
qed

lemma trim_keeps_infix:
  assumes "mid \<noteq> []" and "\<forall>c \<in> set mid. \<not> isWhiteSpace c"
  shows "\<exists>pre' suf'. trim (pre @ mid @ suf) = pre' @ mid @ suf'"
proof -
  from assms have h: "\<not> isWhiteSpace (hd mid)" by (cases mid) auto
  from assms have l: "\<not> isWhiteSpace (hd (rev mid))"
    by (metis hd_rev last_in_set)
  from dropWhile_keeps_infix [of mid isWhiteSpace pre suf, OF assms(1) h] obtain pre' where
    front: "dropWhile isWhiteSpace (pre @ mid @ suf) = pre' @ mid @ suf" by blast
  have "rev mid \<noteq> []" using assms(1) by simp
  from dropWhile_keeps_infix [of "rev mid" isWhiteSpace "rev suf" "rev pre'", OF this l] obtain suf' where
    "dropWhile isWhiteSpace (rev suf @ rev mid @ rev pre') = suf' @ rev mid @ rev pre'" by blast
  then have "trim (pre @ mid @ suf) = pre' @ mid @ rev suf'"
    by (simp add: trim_def front)
  then show ?thesis by blast
qed

lemma snippet_chars: "p \<in> set unsafePatterns \<Longrightarrow> c \<in> set p \<Longrightarrow> 58 \<le> c \<and> c \<le> 122"
  by (auto simp: unsafePatterns_def js_def)

lemma no_space_of_same_case:
  assumes "asciiLower c = asciiLower p" and "58 \<le> p" and "p \<le> 122"
  shows "\<not> isWhiteSpace c"
  using assms unfolding asciiLower_def isWhiteSpace_def by (auto split: if_splits)

lemma snippet_match_solid:
  assumes "p \<in> set unsafePatterns" and "sameIgnoringCase mid p"
  shows "mid \<noteq> [] \<and> (\<forall>c \<in> set mid. \<not> isWhiteSpace c)"
proof
  from assms(1) have "p \<noteq> []" by (auto simp: unsafePatterns_def js_def)
  with assms(2) show "mid \<noteq> []" unfolding sameIgnoringCase_def by auto
  show "\<forall>c \<in> set mid. \<not> isWhiteSpace c"
  proof
    fix c assume "c \<in> set mid"
    then have "asciiLower c \<in> set (map asciiLower mid)" by simp
    then have "asciiLower c \<in> set (map asciiLower p)"
      using assms(2) unfolding sameIgnoringCase_def by simp
    then obtain q where q: "q \<in> set p" "asciiLower c = asciiLower q" by auto
    with snippet_chars [OF assms(1)] show "\<not> isWhiteSpace c"
      using no_space_of_same_case by blast
  qed
qed

lemma containsUnsafePatterns_iff:
  "containsUnsafePatterns s \<longleftrightarrow> (\<exists>p \<in> set unsafePatterns. containsIgnoringCase s p)"
  by (simp add: containsUnsafePatterns_def list_ex_iff test_ci_iff)

lemma unsafe_survives_normalization:
  assumes "p \<in> set unsafePatterns" and "containsIgnoringCase raw p"
  shows "containsUnsafePatterns (addProtocol (trim raw))"
proof -
  from assms(2) obtain pre mid suf where raw: "raw = pre @ mid @ suf" and m: "sameIgnoringCase mid p"
    unfolding containsIgnoringCase_def by blast
  from snippet_match_solid [OF assms(1) m] trim_keeps_infix obtain pre' suf' where
    t: "trim raw = pre' @ mid @ suf'" unfolding raw by blast
  have "\<exists>pre''. addProtocol (trim raw) = pre'' @ mid @ suf'"
  proof (cases "addProtocol (trim raw) = trim raw")
    case True
    then show ?thesis using t by auto
  next
    case False
    then have "addProtocol (trim raw) = (js ''https://'' @ pre') @ mid @ suf'"
      using t by (simp add: addProtocol_def split: if_splits)
    then show ?thesis by blast
  qed
  then have "containsIgnoringCase (addProtocol (trim raw)) p"
    unfolding containsIgnoringCase_def using m by blast
  then show ?thesis using assms(1) containsUnsafePatterns_iff by blast
qed

lemma validate_unsafe_rejected:
  "containsUnsafePatterns (addProtocol (trim raw)) \<Longrightarrow> \<not> isValid (validate newURL raw)"
  by (simp add: validate_def Let_def rejected_def split: option.splits)

text \<open>
  Claim C1. Every input that contains one of the denylisted snippets \<^verbatim>\<open>javascript:\<close>,
  \<^verbatim>\<open>data:\<close>, \<^verbatim>\<open>vbscript:\<close>, \<^verbatim>\<open>file:\<close>, \<^verbatim>\<open><script\<close>, \<^verbatim>\<open>onclick\<close>, \<^verbatim>\<open>onerror\<close> anywhere in its text,
  in any mix of upper and lower case, is rejected by \<open>validate\<close>, whatever the URL parser
  makes of it; so is \<^verbatim>\<open>https://good.com/?x=javascript:alert(1)\<close>, whose scheme is https.
\<close>

theorem validate_rejects_denylisted:
  "(\<forall>snippet \<in> set (map js [''javascript:'', ''data:'', ''vbscript:'', ''file:'', ''<script'',
        ''onclick'', ''onerror'']).
      containsIgnoringCase raw snippet \<longrightarrow> \<not> isValid (validate newURL raw))
   \<and> \<not> isValid (validate newURL (js ''https://good.com/?x=javascript:alert(1)''))"
proof
  have pats: "map js [''javascript:'', ''data:'', ''vbscript:'', ''file:'', ''<script'',
        ''onclick'', ''onerror''] = unsafePatterns"
    by (simp add: unsafePatterns_def)
  show "\<forall>snippet \<in> set (map js [''javascript:'', ''data:'', ''vbscript:'', ''file:'', ''<script'',
        ''onclick'', ''onerror'']).
      containsIgnoringCase raw snippet \<longrightarrow> \<not> isValid (validate newURL raw)"
    unfolding pats using unsafe_survives_normalization validate_unsafe_rejected by blast
  have "js ''https://good.com/?x=javascript:alert(1)''
        = js ''https://good.com/?x='' @ js ''javascript:'' @ js ''alert(1)''"
    by (simp add: js_def)
  then have "containsIgnoringCase (js ''https://good.com/?x=javascript:alert(1)'') (js ''javascript:'')"
    unfolding containsIgnoringCase_def sameIgnoringCase_def by blast
  moreover have "js ''javascript:'' \<in> set unsafePatterns" by (simp add: unsafePatterns_def)
  ultimately show "\<not> isValid (validate newURL (js ''https://good.com/?x=javascript:alert(1)''))"
    using unsafe_survives_normalization validate_unsafe_rejected by blast
qed

theorem validate_rejects_denylisted_witness:
  "containsIgnoringCase (js '' ok.com/?next=JavaScript:alert(1)'') (js ''javascript:'')
   \<and> \<not> isValid (validate new_URL (js '' ok.com/?next=JavaScript:alert(1)''))"
proof -
  have "js '' ok.com/?next=JavaScript:alert(1)''
        = js '' ok.com/?next='' @ js ''JavaScript:'' @ js ''alert(1)''"
    by (simp add: js_def)
  moreover have "sameIgnoringCase (js ''JavaScript:'') (js ''javascript:'')"
    by (simp add: sameIgnoringCase_def js_def asciiLower_def)
  ultimately have c: "containsIgnoringCase (js '' ok.com/?next=JavaScript:alert(1)'')
      (js ''javascript:'')"
    unfolding containsIgnoringCase_def by blast
  have "js ''javascript:'' \<in> set (map js [''javascript:'', ''data:'', ''vbscript:'', ''file:'',
      ''<script'', ''onclick'', ''onerror''])"
    by simp
  with c validate_rejects_denylisted [of "js '' ok.com/?next=JavaScript:alert(1)''" new_URL]
  show ?thesis by blast
qed

section \<open>The validator\<close>

text \<open>The definitions to unfold when \<open>validate\<close> is evaluated at a given string.\<close>

lemmas eval_defs = validate_def trim_def addProtocol_def startsWith_def js_def URL_REGEX_test_def
  match_www_def match_tld_start_def match_tail_def hostChar_def tldChar_def tailChar_def
  isAlnum_def isWordChar_def new_URL_def Let_def isWhiteSpace_def containsUnsafePatterns_def
  unsafePatterns_def test_ci_def canonicalize_def protocol_def href_def isLetter_def
  asciiLower_def plainPathChar_def accepted_def rejected_def

lemma href_nonempty: "href u \<noteq> []"
  by (simp add: href_def js_def)

lemma validate_accepts:
  assumes "isValid (validate newURL raw)"
  obtains u where "newURL (addProtocol (trim raw)) = Some u"
    and "protocol u \<in> {js ''http:'', js ''https:''}"
    and "trim raw \<noteq> []"
    and "URL_REGEX_test (addProtocol (trim raw))"
    and "\<not> containsUnsafePatterns (addProtocol (trim raw))"
    and "validate newURL raw = accepted (href u)"
  using assms
  by (auto simp: validate_def Let_def rejected_def split: if_splits option.splits)

lemma validate_rejects:
  assumes "\<not> isValid (validate newURL raw)"
  shows "normalizedUrl (validate newURL raw) = None"
  using assms
  by (auto simp: validate_def Let_def rejected_def accepted_def split: if_splits option.splits)

lemma href_starts_with_protocol:
  assumes "protocol u \<in> {js ''http:'', js ''https:''}"
  shows "startsWith (href u) (js ''http://'') \<or> startsWith (href u) (js ''https://'')"
proof -
  from assms have "scheme u = js ''http'' \<or> scheme u = js ''https''"
    by (auto simp: protocol_def js_def)
  then show ?thesis
    by (auto simp: href_def startsWith_def js_def)
qed

lemma validate_example_com:
  "validate new_URL (js ''example.com'') = accepted (js ''https://example.com/'')"
  by (simp add: eval_defs)

lemma validate_not_a_url:
  "validate new_URL (js '' not a url'') = rejected ''Please enter a valid URL''"
  by (simp add: eval_defs)

lemma keepsHttpsScheme_new_URL: "keepsHttpsScheme new_URL"
  unfolding keepsHttpsScheme_def
proof (intro allI impI)
  fix t u
  assume a: "new_URL (js ''https://'' @ t) = Some u"
  have s: "startsWith (js ''https://'' @ t) (js ''https://'')"
    by (simp add: startsWith_def)
  have n: "\<not> startsWith (js ''https://'' @ t) (js ''http://'')"
    by (simp add: startsWith_def js_def)
  from a show "scheme u = js ''https''"
    unfolding new_URL_def Let_def using s n
    by (auto split: if_splits)
qed

lemma tailChar_solid: "tailChar c \<Longrightarrow> \<not> isWhiteSpace c"
  unfolding tailChar_def isAlnum_def isWhiteSpace_def js_def by auto

lemma tldChar_solid: "tldChar c \<Longrightarrow> \<not> isWhiteSpace c"
  unfolding tldChar_def isAlnum_def isWhiteSpace_def js_def by auto

lemma hostChar_solid: "hostChar c \<Longrightarrow> \<not> isWhiteSpace c"
  unfolding hostChar_def isAlnum_def isWhiteSpace_def js_def by auto

lemma match_tail_solid: "match_tail prev cs \<Longrightarrow> \<forall>c \<in> set cs. \<not> isWhiteSpace c"
  by (auto simp: match_tail_def list_all_iff tailChar_solid)

lemma match_tld_solid: "match_tld n prev cs \<Longrightarrow> \<forall>c \<in> set cs. \<not> isWhiteSpace c"
proof (induction cs arbitrary: n prev)
  case Nil
  then show ?case by simp
next
  case (Cons c cs)
  from Cons.prems consider "match_tail prev (c # cs)" | "tldChar c" "match_tld (Suc n) c cs"
    by auto
  then show ?case
  proof cases
    case 1
    then show ?thesis by (rule match_tail_solid)
  next
    case 2
    then show ?thesis using Cons.IH tldChar_solid by auto
  qed
qed

lemma match_tld_start_solid: "match_tld_start cs \<Longrightarrow> \<forall>c \<in> set cs. \<not> isWhiteSpace c"
  by (cases cs) (auto simp: match_tld_start_def tldChar_solid dest: match_tld_solid)

lemma match_host_solid: "match_host n cs \<Longrightarrow> \<forall>c \<in> set cs. \<not> isWhiteSpace c"
proof (induction cs arbitrary: n)
  case Nil
  then show ?case by simp
next
  case (Cons c cs)
  from Cons.prems consider "c = 46" "match_tld_start cs" | "hostChar c" "match_host (Suc n) cs"
    by auto
  then show ?case
  proof cases
    case 1
    have "\<not> isWhiteSpace 46" by (simp add: isWhiteSpace_def)
    with 1 show ?thesis using match_tld_start_solid by auto
  next
    case 2
    then show ?thesis using Cons.IH hostChar_solid by auto
  qed
qed

lemma match_www_solid: "match_www r \<Longrightarrow> \<forall>c \<in> set r. \<not> isWhiteSpace c"
proof -
  assume "match_www r"
  then consider "startsWith r (js ''www.'')" "match_host 0 (drop 4 r)" | "match_host 0 r"
    by (auto simp: match_www_def)
  then show ?thesis
  proof cases
    case 1
    have "length (js ''www.'') = 4" by (simp add: js_def)
    with 1(1) have "take 4 r = js ''www.''" by (simp add: startsWith_def)
    then have r: "r = js ''www.'' @ drop 4 r" by (metis append_take_drop_id)
    have "\<forall>c \<in> set (js ''www.''). \<not> isWhiteSpace c"
      by (simp add: js_def isWhiteSpace_def)
    moreover have "\<forall>c \<in> set (drop 4 r). \<not> isWhiteSpace c"
      using 1(2) by (rule match_host_solid)
    ultimately have "\<forall>c \<in> set (js ''www.'' @ drop 4 r). \<not> isWhiteSpace c" by auto
    with r show ?thesis by metis
  next
    case 2
    then show ?thesis by (rule match_host_solid)
  qed
qed

lemma URL_REGEX_test_shape:
  assumes "URL_REGEX_test s"
  shows "(startsWith s (js ''http://'') \<or> startsWith s (js ''https://''))
         \<and> s \<noteq> [] \<and> (\<forall>c \<in> set s. \<not> isWhiteSpace c)"
proof -
  from assms consider "startsWith s (js ''http://'')" "match_www (drop 7 s)"
    | "startsWith s (js ''https://'')" "match_www (drop 8 s)"
    by (auto simp: URL_REGEX_test_def)
  then show ?thesis
  proof cases
    case 1
    have "length (js ''http://'') = 7" by (simp add: js_def)
    with 1(1) have "take 7 s = js ''http://''" by (simp add: startsWith_def)
    then have s: "s = js ''http://'' @ drop 7 s" by (metis append_take_drop_id)
    have "\<forall>c \<in> set (js ''http://''). \<not> isWhiteSpace c"
      by (simp add: js_def isWhiteSpace_def)
    moreover have "\<forall>c \<in> set (drop 7 s). \<not> isWhiteSpace c"
      using 1(2) by (rule match_www_solid)
    ultimately have "\<forall>c \<in> set (js ''http://'' @ drop 7 s). \<not> isWhiteSpace c" by auto
    with s have a: "\<forall>c \<in> set s. \<not> isWhiteSpace c" by metis
    from s have "s \<noteq> []" by (auto simp: js_def)
    with a 1(1) show ?thesis by blast
  next
    case 2
    have "length (js ''https://'') = 8" by (simp add: js_def)
    with 2(1) have "take 8 s = js ''https://''" by (simp add: startsWith_def)
    then have s: "s = js ''https://'' @ drop 8 s" by (metis append_take_drop_id)
    have "\<forall>c \<in> set (js ''https://''). \<not> isWhiteSpace c"
      by (simp add: js_def isWhiteSpace_def)
    moreover have "\<forall>c \<in> set (drop 8 s). \<not> isWhiteSpace c"
      using 2(2) by (rule match_www_solid)
    ultimately have "\<forall>c \<in> set (js ''https://'' @ drop 8 s). \<not> isWhiteSpace c" by auto
    with s have a: "\<forall>c \<in> set s. \<not> isWhiteSpace c" by metis
    from s have "s \<noteq> []" by (auto simp: js_def)
    with a 2(1) show ?thesis by blast
  qed
qed

lemma trim_solid: "\<forall>c \<in> set s. \<not> isWhiteSpace c \<Longrightarrow> trim s = s"
proof -
  assume a: "\<forall>c \<in> set s. \<not> isWhiteSpace c"
  then have "dropWhile isWhiteSpace s = s" by (cases s) auto
  moreover from a have "dropWhile isWhiteSpace (rev s) = rev s" by (cases "rev s") auto
  ultimately show ?thesis by (simp add: trim_def)
qed

lemma validate_of_canonical:
  assumes "URL_REGEX_test n" and "\<not> containsUnsafePatterns n" and "newURL n = Some u"
    and "protocol u \<in> {js ''http:'', js ''https:''}"
  shows "validate newURL n = accepted (href u)"
proof -
  from URL_REGEX_test_shape [OF assms(1)] have t: "trim n = n" and ne: "n \<noteq> []"
    and p: "startsWith n (js ''http://'') \<or> startsWith n (js ''https://'')"
    by (auto simp: trim_solid)
  from p have a: "addProtocol n = n" by (auto simp: addProtocol_def)
  show ?thesis
    using assms by (simp add: validate_def Let_def t ne a)
qed

text \<open>
  Claim C2, as stated, fails: \<open>validate\<close> is not idempotent on its normalized output. The
  input \<^verbatim>\<open>https://a#b.com\<close> passes the URL regex (\<^verbatim>\<open>#\<close> belongs to its first character
  class), the parser reads the host \<^verbatim>\<open>a\<close> and the fragment \<^verbatim>\<open>b.com\<close>, and the normalized URL
  \<^verbatim>\<open>https://a/#b.com\<close> is rejected by the same regex.
\<close>

theorem validate_not_idempotent:
  "validate new_URL (js ''https://a#b.com'') = accepted (js ''https://a/#b.com'')
   \<and> validate new_URL (js ''https://a/#b.com'') = rejected ''Please enter a valid URL''
   \<and> \<not> isValid (validate new_URL (js ''https://a/#b.com''))"
  by (simp add: eval_defs)

text \<open>
  Claim C2, amended. When \<open>validate\<close> accepts an input with the normalized URL \<open>n\<close>, and
  \<open>n\<close> itself passes the URL regex and the denylist, and the parser reads \<open>n\<close> as the URL
  it read from the input, then \<open>validate\<close> accepts \<open>n\<close> and returns \<open>n\<close> again.
\<close>

theorem validate_idempotent_when_canonical_passes:
  assumes "validate newURL raw = accepted n"
    and "URL_REGEX_test n"
    and "\<not> containsUnsafePatterns n"
    and "newURL n = newURL (addProtocol (trim raw))"
  shows "validate newURL n = accepted n"
proof -
  from assms(1) have "isValid (validate newURL raw)" by (simp add: accepted_def)
  then obtain u where p: "newURL (addProtocol (trim raw)) = Some u"
    and pr: "protocol u \<in> {js ''http:'', js ''https:''}"
    and v: "validate newURL raw = accepted (href u)"
    by (rule validate_accepts)
  from v assms(1) have n: "n = href u" by (simp add: accepted_def)
  from assms(4) p have q: "newURL n = Some u" by simp
  have "validate newURL n = accepted (href u)"
    using assms(2) assms(3) q pr by (rule validate_of_canonical)
  then show ?thesis by (simp add: n)
qed

theorem validate_idempotent_when_canonical_passes_witness:
  "validate new_URL (js ''example.com'') = accepted (js ''https://example.com/'')
   \<and> URL_REGEX_test (js ''https://example.com/'')
   \<and> \<not> containsUnsafePatterns (js ''https://example.com/'')
   \<and> new_URL (js ''https://example.com/'') = new_URL (addProtocol (trim (js ''example.com'')))
   \<and> validate new_URL (js ''https://example.com/'') = accepted (js ''https://example.com/'')"
proof -
  have a: "URL_REGEX_test (js ''https://example.com/'')"
    by (simp add: eval_defs)
  have b: "\<not> containsUnsafePatterns (js ''https://example.com/'')"
    by (simp add: eval_defs)
  have c: "new_URL (js ''https://example.com/'') = new_URL (addProtocol (trim (js ''example.com'')))"
    by (simp add: eval_defs)
  from validate_idempotent_when_canonical_passes [OF validate_example_com a b c]
    validate_example_com a b c
  show ?thesis by blast
qed



lemma trim_last_solid:
  assumes "trim s \<noteq> []"
  shows "\<not> isWhiteSpace (last (trim s))"
proof -
  let ?b = "dropWhile isWhiteSpace (rev (dropWhile isWhiteSpace s))"
  from assms have ne: "?b \<noteq> []" by (simp add: trim_def)
  then have "\<not> isWhiteSpace (hd ?b)" by (rule hd_dropWhile)
  moreover have "last (trim s) = hd ?b" using ne by (simp add: trim_def last_rev)
  ultimately show ?thesis by simp
qed

lemma dropWhile_solid_head: "xs \<noteq> [] \<Longrightarrow> \<not> P (hd xs) \<Longrightarrow> dropWhile P xs = xs"
  by (cases xs) auto

lemma trim_prefixed:
  assumes "trim s \<noteq> []"
  shows "trim (js ''https://'' @ trim s) = js ''https://'' @ trim s"
proof -
  have front: "dropWhile isWhiteSpace (js ''https://'' @ trim s) = js ''https://'' @ trim s"
    by (simp add: js_def isWhiteSpace_def)
  have "rev (trim s) \<noteq> []" using assms by simp
  moreover have "\<not> isWhiteSpace (hd (rev (trim s)))"
    using assms trim_last_solid [OF assms] by (simp add: hd_rev)
  ultimately have "dropWhile isWhiteSpace (rev (trim s) @ rev (js ''https://''))
                   = rev (trim s) @ rev (js ''https://'')"
    by (intro dropWhile_solid_head) auto
  then show ?thesis
    unfolding trim_def [of "js ''https://'' @ trim s"] front by simp
qed

lemma validate_prefixed:
  assumes "trim raw \<noteq> []"
    and "\<not> startsWith (trim raw) (js ''http://'')"
    and "\<not> startsWith (trim raw) (js ''https://'')"
  shows "validate newURL raw = validate newURL (js ''https://'' @ trim raw)"
proof -
  have a: "addProtocol (trim raw) = js ''https://'' @ trim raw"
    using assms(2,3) by (simp add: addProtocol_def)
  have "startsWith (js ''https://'' @ trim raw) (js ''https://'')"
    by (simp add: startsWith_def)
  then have b: "addProtocol (js ''https://'' @ trim raw) = js ''https://'' @ trim raw"
    by (simp add: addProtocol_def)
  show ?thesis
    using assms(1) by (simp add: validate_def Let_def a b trim_prefixed [OF assms(1)])
qed

text \<open>
  Claim C3. When \<open>validate\<close> accepts an input, its normalized URL is what the parser
  returns, serialized, for the trimmed input or for \<^verbatim>\<open>https://\<close> followed by it, and it begins
  with \<^verbatim>\<open>http://\<close> or \<^verbatim>\<open>https://\<close>. An input that has neither prefix after trimming (one
  without a scheme, such as \<^verbatim>\<open>example.com\<close>) is validated as \<^verbatim>\<open>https://\<close> followed by the
  trimmed input: when it is accepted, the URL regex and the denylist have passed on that
  prefixed string, the normalized URL is the parser's serialization of it, and it begins
  with \<^verbatim>\<open>https://\<close>, given that the parser keeps the scheme of what it is handed.
\<close>

theorem validate_normalized_scheme:
  "(isValid (validate newURL raw) \<longrightarrow>
      (\<exists>u. (newURL (trim raw) = Some u \<or> newURL (js ''https://'' @ trim raw) = Some u)
          \<and> normalizedUrl (validate newURL raw) = Some (href u)
          \<and> (startsWith (href u) (js ''http://'') \<or> startsWith (href u) (js ''https://''))))
   \<and> (trim raw \<noteq> [] \<and> \<not> startsWith (trim raw) (js ''http://'')
        \<and> \<not> startsWith (trim raw) (js ''https://'') \<longrightarrow>
        validate newURL raw = validate newURL (js ''https://'' @ trim raw)
        \<and> (isValid (validate newURL raw) \<longrightarrow>
             (\<exists>u. newURL (js ''https://'' @ trim raw) = Some u
                 \<and> URL_REGEX_test (js ''https://'' @ trim raw)
                 \<and> \<not> containsUnsafePatterns (js ''https://'' @ trim raw)
                 \<and> normalizedUrl (validate newURL raw) = Some (href u)
                 \<and> (keepsHttpsScheme newURL \<longrightarrow> startsWith (href u) (js ''https://'')))))"
proof (intro conjI impI)
  assume "isValid (validate newURL raw)"
  then obtain u where p: "newURL (addProtocol (trim raw)) = Some u"
    and pr: "protocol u \<in> {js ''http:'', js ''https:''}"
    and v: "validate newURL raw = accepted (href u)"
    by (rule validate_accepts)
  have "addProtocol (trim raw) = trim raw \<or> addProtocol (trim raw) = js ''https://'' @ trim raw"
    by (simp add: addProtocol_def)
  with p have 0: "newURL (trim raw) = Some u \<or> newURL (js ''https://'' @ trim raw) = Some u"
    by auto
  have 1: "normalizedUrl (validate newURL raw) = Some (href u)"
    by (simp add: v accepted_def)
  have 2: "startsWith (href u) (js ''http://'') \<or> startsWith (href u) (js ''https://'')"
    using pr by (rule href_starts_with_protocol)
  from 0 1 2
  show "\<exists>u. (newURL (trim raw) = Some u \<or> newURL (js ''https://'' @ trim raw) = Some u)
          \<and> normalizedUrl (validate newURL raw) = Some (href u)
          \<and> (startsWith (href u) (js ''http://'') \<or> startsWith (href u) (js ''https://''))"
    by blast
next
  assume "trim raw \<noteq> [] \<and> \<not> startsWith (trim raw) (js ''http://'')
        \<and> \<not> startsWith (trim raw) (js ''https://'')"
  then show "validate newURL raw = validate newURL (js ''https://'' @ trim raw)"
    by (simp add: validate_prefixed)
next
  assume no: "trim raw \<noteq> [] \<and> \<not> startsWith (trim raw) (js ''http://'')
        \<and> \<not> startsWith (trim raw) (js ''https://'')"
  assume "isValid (validate newURL raw)"
  then obtain u where p: "newURL (addProtocol (trim raw)) = Some u"
    and r: "URL_REGEX_test (addProtocol (trim raw))"
    and d: "\<not> containsUnsafePatterns (addProtocol (trim raw))"
    and v: "validate newURL raw = accepted (href u)"
    by (rule validate_accepts)
  have a: "addProtocol (trim raw) = js ''https://'' @ trim raw"
    using no by (simp add: addProtocol_def)
  have 1: "normalizedUrl (validate newURL raw) = Some (href u)"
    by (simp add: v accepted_def)
  have 2: "keepsHttpsScheme newURL \<longrightarrow> startsWith (href u) (js ''https://'')"
  proof
    assume "keepsHttpsScheme newURL"
    with p a have "scheme u = js ''https''" unfolding keepsHttpsScheme_def by auto
    then show "startsWith (href u) (js ''https://'')"
      by (simp add: href_def startsWith_def js_def)
  qed
  from p r d 1 2
  show "\<exists>u. newURL (js ''https://'' @ trim raw) = Some u
          \<and> URL_REGEX_test (js ''https://'' @ trim raw)
          \<and> \<not> containsUnsafePatterns (js ''https://'' @ trim raw)
          \<and> normalizedUrl (validate newURL raw) = Some (href u)
          \<and> (keepsHttpsScheme newURL \<longrightarrow> startsWith (href u) (js ''https://''))"
    unfolding a by blast
qed

theorem validate_normalized_scheme_witness:
  "isValid (validate new_URL (js '' example.com ''))
   \<and> trim (js '' example.com '') = js ''example.com''
   \<and> \<not> startsWith (js ''example.com'') (js ''http://'')
   \<and> \<not> startsWith (js ''example.com'') (js ''https://'')
   \<and> keepsHttpsScheme new_URL
   \<and> validate new_URL (js '' example.com '') = validate new_URL (js ''https://example.com'')
   \<and> normalizedUrl (validate new_URL (js '' example.com '')) = Some (js ''https://example.com/'')
   \<and> startsWith (js ''https://example.com/'') (js ''https://'')"
proof -
  have v: "validate new_URL (js '' example.com '') = accepted (js ''https://example.com/'')"
    by (simp add: eval_defs)
  have b: "isValid (validate new_URL (js '' example.com ''))"
    by (simp add: v accepted_def)
  have t: "trim (js '' example.com '') = js ''example.com''"
    by (simp add: trim_def js_def isWhiteSpace_def)
  have c: "\<not> startsWith (js ''example.com'') (js ''http://'')
       \<and> \<not> startsWith (js ''example.com'') (js ''https://'')"
    by (simp add: startsWith_def js_def)
  have ne: "js ''example.com'' \<noteq> []" by (simp add: js_def)
  have d: "normalizedUrl (validate new_URL (js '' example.com '')) = Some (js ''https://example.com/'')"
    by (simp add: v accepted_def)
  have e: "js ''https://'' @ js ''example.com'' = js ''https://example.com''"
    by (simp add: js_def)
  from validate_normalized_scheme [of new_URL "js '' example.com ''"] b c ne keepsHttpsScheme_new_URL
  have "validate new_URL (js '' example.com '') = validate new_URL (js ''https://example.com'')
        \<and> (\<exists>u. normalizedUrl (validate new_URL (js '' example.com '')) = Some (href u)
               \<and> startsWith (href u) (js ''https://''))"
    unfolding t e by blast
  with d have "validate new_URL (js '' example.com '') = validate new_URL (js ''https://example.com'')
        \<and> startsWith (js ''https://example.com/'') (js ''https://'')"
    by auto
  with b t c d keepsHttpsScheme_new_URL show ?thesis by blast
qed

text \<open>
  Claim C10. When \<open>validate\<close> rejects an input, \<open>sanitize\<close> returns that input as it was
  given; only when \<open>validate\<close> accepts does \<open>sanitize\<close> return the normalized URL. So
  the output of \<open>sanitize\<close> need not pass validation: for \<^verbatim>\<open>javascript:alert(1)\<close> it is the
  input itself, which \<open>validate\<close> rejects.
\<close>

theorem sanitize_raw_or_normalized:
  "(\<not> isValid (validate newURL raw) \<longrightarrow> sanitize newURL raw = raw)
   \<and> (isValid (validate newURL raw) \<longrightarrow>
        normalizedUrl (validate newURL raw) = Some (sanitize newURL raw))
   \<and> \<not> isValid (validate newURL (sanitize newURL (js ''javascript:alert(1)'')))"
proof (intro conjI impI)
  assume "\<not> isValid (validate newURL raw)"
  then show "sanitize newURL raw = raw"
    by (simp add: sanitize_def validate_rejects)
next
  assume "isValid (validate newURL raw)"
  then obtain u where "validate newURL raw = accepted (href u)"
    by (rule validate_accepts)
  then show "normalizedUrl (validate newURL raw) = Some (sanitize newURL raw)"
    by (simp add: sanitize_def accepted_def href_nonempty)
next
  have "js ''javascript:alert(1)'' = [] @ js ''javascript:'' @ js ''alert(1)''"
    by (simp add: js_def)
  then have "containsIgnoringCase (js ''javascript:alert(1)'') (js ''javascript:'')"
    unfolding containsIgnoringCase_def sameIgnoringCase_def by blast
  moreover have "js ''javascript:'' \<in> set unsafePatterns" by (simp add: unsafePatterns_def)
  ultimately have r: "\<not> isValid (validate newURL (js ''javascript:alert(1)''))"
    using unsafe_survives_normalization validate_unsafe_rejected by blast
  then have "sanitize newURL (js ''javascript:alert(1)'') = js ''javascript:alert(1)''"
    by (simp add: sanitize_def validate_rejects)
  with r show "\<not> isValid (validate newURL (sanitize newURL (js ''javascript:alert(1)'')))"
    by simp
qed

theorem sanitize_raw_or_normalized_witness:
  "\<not> isValid (validate new_URL (js '' not a url''))
   \<and> sanitize new_URL (js '' not a url'') = js '' not a url''
   \<and> isValid (validate new_URL (js ''example.com''))
   \<and> sanitize new_URL (js ''example.com'') = js ''https://example.com/''"
proof -
  have a: "\<not> isValid (validate new_URL (js '' not a url''))"
    by (simp add: validate_not_a_url rejected_def)
  have b: "isValid (validate new_URL (js ''example.com''))"
    by (simp add: validate_example_com accepted_def)
  from a sanitize_raw_or_normalized [of new_URL "js '' not a url''"]
  have c: "sanitize new_URL (js '' not a url'') = js '' not a url''" by blast
  from b sanitize_raw_or_normalized [of new_URL "js ''example.com''"]
  have "normalizedUrl (validate new_URL (js ''example.com''))
        = Some (sanitize new_URL (js ''example.com''))" by blast
  then have d: "sanitize new_URL (js ''example.com'') = js ''https://example.com/''"
    by (simp add: validate_example_com accepted_def)
  from a b c d show ?thesis by blast
qed

section \<open>Sanitizing tags\<close>

lemma indexOf_nonneg: "x \<in> set xs \<Longrightarrow> 0 \<le> indexOf xs x"
  by (induction xs) (auto simp: Let_def)

lemma indexOf_first_hit:
  "indexOf (pre @ x # ys) x = int (length pre) \<longleftrightarrow> x \<notin> set pre"
proof (induction pre)
  case Nil
  show ?case by simp
next
  case (Cons p ps)
  show ?case
  proof (cases "p = x")
    case True
    then show ?thesis by simp
  next
    case False
    have "0 \<le> indexOf (ps @ x # ys) x" by (rule indexOf_nonneg) simp
    with False Cons show ?thesis by (simp add: Let_def)
  qed
qed

lemma keepFirstOccurrences_seen:
  "set s1 = set s2 \<Longrightarrow> keepFirstOccurrences s1 xs = keepFirstOccurrences s2 xs"
proof (induction xs arbitrary: s1 s2)
  case Nil
  show ?case by simp
next
  case (Cons x xs)
  from Cons.prems have "set (x # s1) = set (x # s2)" by simp
  with Cons.IH Cons.prems show ?case by (metis keepFirstOccurrences.simps(2))
qed

lemma removeDuplicates_from:
  "map snd (filter (\<lambda>(index, tag). indexOf (pre @ xs) tag = int index)
                   (enumerate (length pre) xs))
   = keepFirstOccurrences pre xs"
proof (induction xs arbitrary: pre)
  case Nil
  show ?case by simp
next
  case (Cons x xs)
  have ih: "map snd (filter (\<lambda>(index, tag). indexOf (pre @ x # xs) tag = int index)
                       (enumerate (Suc (length pre)) xs))
            = keepFirstOccurrences (pre @ [x]) xs"
    using Cons.IH [of "pre @ [x]"] by simp
  show ?case
  proof (cases "x \<in> set pre")
    case True
    then have "set (pre @ [x]) = set pre" by auto
    then have "keepFirstOccurrences (pre @ [x]) xs = keepFirstOccurrences pre xs"
      by (rule keepFirstOccurrences_seen)
    with True ih show ?thesis by (simp add: indexOf_first_hit)
  next
    case False
    have "set (pre @ [x]) = set (x # pre)" by auto
    then have "keepFirstOccurrences (pre @ [x]) xs = keepFirstOccurrences (x # pre) xs"
      by (rule keepFirstOccurrences_seen)
    with False ih show ?thesis by (simp add: indexOf_first_hit)
  qed
qed

lemma removeDuplicates_keeps_first: "removeDuplicates arr = keepFirstOccurrences [] arr"
  using removeDuplicates_from [of "[]" arr] by (simp add: removeDuplicates_def)

lemma keepFirstOccurrences_set:
  "set (keepFirstOccurrences seen xs) = set xs - set seen"
  by (induction xs arbitrary: seen) auto

lemma keepFirstOccurrences_distinct: "distinct (keepFirstOccurrences seen xs)"
  by (induction xs arbitrary: seen) (auto simp: keepFirstOccurrences_set)

lemma isControl_iff: "isControl c \<longleftrightarrow> c \<le> 31 \<or> (127 \<le> c \<and> c \<le> 159)"
  by (simp add: isControl_def)

lemma collapseWhiteSpace_in_run:
  "collapseWhiteSpace True s = collapseWhiteSpace False (dropWhile isWhiteSpace s)"
  by (induction s) simp_all

lemma collapseWhiteSpace_runs: "collapseWhiteSpace False s = collapseRuns s"
  by (induction s rule: collapseRuns.induct) (simp_all add: collapseWhiteSpace_in_run)

lemma sanitizeText_meets_spec: "sanitizeText t = sanitizeText_spec t"
  by (simp add: sanitizeText_def sanitizeText_spec_def collapseWhiteSpace_runs isControl_iff)

lemma collapseWhiteSpace_chars: "set (collapseWhiteSpace inRun s) \<subseteq> insert 32 (set s)"
  by (induction s arbitrary: inRun) auto

lemma singleSpaced_Cons:
  "singleSpaced (x # r) \<longleftrightarrow>
     (isWhiteSpace x \<longrightarrow> x = 32 \<and> (r \<noteq> [] \<longrightarrow> \<not> isWhiteSpace (hd r))) \<and> singleSpaced r"
  by (cases r) auto

lemma collapseWhiteSpace_singleSpaced:
  "singleSpaced (collapseWhiteSpace False s)
   \<and> singleSpaced (collapseWhiteSpace True s)
   \<and> (collapseWhiteSpace True s \<noteq> [] \<longrightarrow> \<not> isWhiteSpace (hd (collapseWhiteSpace True s)))"
proof (induction s)
  case Nil
  show ?case by simp
next
  case (Cons c cs)
  from Cons have f: "singleSpaced (collapseWhiteSpace False cs)"
    and t: "singleSpaced (collapseWhiteSpace True cs)"
    and h: "collapseWhiteSpace True cs \<noteq> [] \<longrightarrow> \<not> isWhiteSpace (hd (collapseWhiteSpace True cs))"
    by blast+
  show ?case
  proof (cases "isWhiteSpace c")
    case True
    then have F: "collapseWhiteSpace False (c # cs) = 32 # collapseWhiteSpace True cs"
      and T: "collapseWhiteSpace True (c # cs) = collapseWhiteSpace True cs"
      by simp_all
    have "singleSpaced (32 # collapseWhiteSpace True cs)"
      unfolding singleSpaced_Cons using t h by blast
    with t h show ?thesis unfolding F T by blast
  next
    case False
    then have F: "collapseWhiteSpace False (c # cs) = c # collapseWhiteSpace False cs"
      and T: "collapseWhiteSpace True (c # cs) = c # collapseWhiteSpace False cs"
      by simp_all
    have s: "singleSpaced (c # collapseWhiteSpace False cs)"
      unfolding singleSpaced_Cons using f False by blast
    have "\<not> isWhiteSpace (hd (c # collapseWhiteSpace False cs))" using False by simp
    with s show ?thesis unfolding F T by blast
  qed
qed

lemma sanitizeText_clean: "cleanText (sanitizeText t)"
proof -
  have "set (sanitizeText t) \<subseteq> insert 32 (set (filter (\<lambda>c. \<not> isControl c) (trim t)))"
    unfolding sanitizeText_def by (rule collapseWhiteSpace_chars)
  moreover have "\<not> isControl 32" by (simp add: isControl_def)
  ultimately have "\<forall>c \<in> set (sanitizeText t). \<not> isControl c" by auto
  then have 1: "\<forall>c \<in> set (sanitizeText t). \<not> (c \<le> 31 \<or> (127 \<le> c \<and> c \<le> 159))"
    unfolding isControl_iff .
  have 2: "singleSpaced (sanitizeText t)"
    unfolding sanitizeText_def using collapseWhiteSpace_singleSpaced by blast
  from 1 2 show ?thesis unfolding cleanText_def by blast
qed

text \<open>
  Claim C9. \<open>sanitizeTags\<close> applies \<open>sanitizeText\<close> to each element, which trims it, drops
  its control characters and replaces each run of white space by one space; it then drops
  the elements that have become empty, removes duplicates keeping the first occurrence and
  keeps at most the first ten entries. Hence every tag of the result is the sanitized text
  of an input tag, has no control character and no white space other than single spaces,
  and the result has no duplicate, no empty tag and at most ten entries. In particular
  \<^verbatim>\<open>sanitizeTags(["a","a"," a ","b"])\<close> is \<^verbatim>\<open>["a","b"]\<close>; and a tab inside a tag is dropped
  while a run of spaces or no-break spaces becomes one space.
\<close>

theorem sanitizeTags_meets_spec:
  "sanitizeText t = sanitizeText_spec t
   \<and> sanitizeTags ts = sanitizeTags_spec ts
   \<and> (\<forall>tag \<in> set (sanitizeTags ts). cleanText tag)
   \<and> distinct (sanitizeTags ts)
   \<and> length (sanitizeTags ts) \<le> 10
   \<and> [] \<notin> set (sanitizeTags ts)
   \<and> set (sanitizeTags ts) \<subseteq> sanitizeText ` set ts
   \<and> sanitizeTags (map js [''a'', ''a'', '' a '', ''b'']) = map js [''a'', ''b'']
   \<and> sanitizeTags [[97, 9, 98], js ''a   b'', [32, 120, 1, 160, 160, 121], js ''ab'']
       = [js ''ab'', js ''a b'', js ''x y'']"
proof (intro conjI)
  show "sanitizeText t = sanitizeText_spec t" by (rule sanitizeText_meets_spec)
  have m: "map sanitizeText ts = map sanitizeText_spec ts"
    by (simp add: sanitizeText_meets_spec)
  show eq: "sanitizeTags ts = sanitizeTags_spec ts"
    by (simp add: sanitizeTags_def sanitizeTags_spec_def removeDuplicates_keeps_first m)
  have eq': "sanitizeTags ts
             = take 10 (keepFirstOccurrences [] (filter (\<lambda>t. t \<noteq> []) (map sanitizeText ts)))"
    by (simp add: sanitizeTags_def removeDuplicates_keeps_first)
  show "distinct (sanitizeTags ts)"
    unfolding eq' by (rule distinct_take) (rule keepFirstOccurrences_distinct)
  show "length (sanitizeTags ts) \<le> 10"
    by (simp add: sanitizeTags_def)
  have sub: "set (sanitizeTags ts) \<subseteq> set (filter (\<lambda>t. t \<noteq> []) (map sanitizeText ts))"
    unfolding eq'
    using set_take_subset [of 10 "keepFirstOccurrences [] (filter (\<lambda>t. t \<noteq> []) (map sanitizeText ts))"]
    by (simp add: keepFirstOccurrences_set)
  then show "[] \<notin> set (sanitizeTags ts)" by auto
  from sub show img: "set (sanitizeTags ts) \<subseteq> sanitizeText ` set ts" by auto
  show "\<forall>tag \<in> set (sanitizeTags ts). cleanText tag"
    using img sanitizeText_clean by auto
  show "sanitizeTags (map js [''a'', ''a'', '' a '', ''b'']) = map js [''a'', ''b'']"
    by (simp add: sanitizeTags_def removeDuplicates_def sanitizeText_def trim_def
        isWhiteSpace_def isControl_def js_def enumerate_eq_zip upt_rec Let_def)
  show "sanitizeTags [[97, 9, 98], js ''a   b'', [32, 120, 1, 160, 160, 121], js ''ab'']
       = [js ''ab'', js ''a b'', js ''x y'']"
    by (simp add: sanitizeTags_def removeDuplicates_def sanitizeText_def trim_def
        isWhiteSpace_def isControl_def js_def enumerate_eq_zip upt_rec Let_def)
qed

theorem sanitizeTags_meets_spec_witness:
  "js ''a b'' \<in> set (sanitizeTags [[97, 9, 98], js ''a   b'', [32, 120, 1, 160, 160, 121], js ''ab''])
   \<and> cleanText (js ''a b'')"
proof -
  let ?ts = "[[97, 9, 98], js ''a   b'', [32, 120, 1, 160, 160, 121], js ''ab'']"
  note spec = sanitizeTags_meets_spec [of "[]" ?ts]
  have c: "\<forall>tag \<in> set (sanitizeTags ?ts). cleanText tag"
    by (rule spec [THEN conjunct2, THEN conjunct2, THEN conjunct1])
  have e: "sanitizeTags ?ts = [js ''ab'', js ''a b'', js ''x y'']"
    by (rule spec [THEN conjunct2, THEN conjunct2, THEN conjunct2, THEN conjunct2,
          THEN conjunct2, THEN conjunct2, THEN conjunct2, THEN conjunct2])
  from e have "js ''a b'' \<in> set (sanitizeTags ?ts)" by simp
  with c show ?thesis by blast
qed

section \<open>The storage operations\<close>

lemma saveGames_failure:
  "fst (saveGames setItem games st) = Some e \<Longrightarrow> snd (saveGames setItem games st) = st"
  by (cases "setItem games") (simp_all add: saveGames_def)

lemma saveGames_success:
  "saveGames setItem games st = (None, st') \<Longrightarrow> st' = GamesJSON games"
  by (cases "setItem games") (simp_all add: saveGames_def)

lemma save_failure:
  "fst (GameStorage_save setItem newURL uuid now game st) = Some e
   \<Longrightarrow> snd (GameStorage_save setItem newURL uuid now game st) = st"
  by (auto simp: GameStorage_save_def Let_def dest: saveGames_failure split: if_splits)

lemma update_failure:
  "fst (GameStorage_update setItem newURL i updates st) = Some e
   \<Longrightarrow> snd (GameStorage_update setItem newURL i updates st) = st"
  by (auto simp: GameStorage_update_def Let_def dest: saveGames_failure
           split: if_splits option.splits)

lemma delete_failure:
  "fst (GameStorage_delete setItem i st) = Some e
   \<Longrightarrow> snd (GameStorage_delete setItem i st) = st"
  by (auto simp: GameStorage_delete_def Let_def dest: saveGames_failure)

lemma import_failure:
  "fst (GameStorage_import setItem data st) = Some err
   \<Longrightarrow> snd (GameStorage_import setItem data st) = st"
proof (cases data)
  case NotJSON
  then show ?thesis by (simp add: GameStorage_import_def)
next
  case NoGamesArray
  then show ?thesis by (simp add: GameStorage_import_def)
next
  case (GamesArray entries)
  assume f: "fst (GameStorage_import setItem data st) = Some err"
  show ?thesis
  proof (cases "those entries")
    case None
    with GamesArray show ?thesis by (simp add: GameStorage_import_def)
  next
    case (Some games)
    obtain e st' where s: "saveGames setItem games st = (e, st')" by (cases "saveGames setItem games st")
    show ?thesis
    proof (cases e)
      case None
      with s GamesArray Some f show ?thesis by (simp add: GameStorage_import_def)
    next
      case (Some a)
      with s have "fst (saveGames setItem games st) = Some a" by simp
      then have "snd (saveGames setItem games st) = st" by (rule saveGames_failure)
      with s have "st' = st" by simp
      with s GamesArray \<open>those entries = Some games\<close> Some show ?thesis
        by (simp add: GameStorage_import_def)
    qed
  qed
qed

lemma incrementPlayCount_failure:
  "fst (GameStorage_incrementPlayCount setItem newURL i st) = Some e
   \<Longrightarrow> snd (GameStorage_incrementPlayCount setItem newURL i st) = st"
  by (auto simp: GameStorage_incrementPlayCount_def dest: update_failure split: option.splits)

lemma validate_codepen:
  "validate new_URL (js ''codepen.io/x'') = accepted (js ''https://codepen.io/x'')"
  by (simp add: eval_defs)

text \<open>
  Claim C5. When \<open>save\<close>, \<open>update\<close>, \<open>delete\<close>, \<open>import\<close> or \<open>incrementPlayCount\<close> of the
  localStorage adapter fails with an error (validation, not found, malformed import or a
  failed write), the storage it leaves is the storage it found: nothing is written in part.
\<close>

theorem failed_operation_keeps_storage:
  "(fst (GameStorage_save setItem newURL uuid now game st) \<noteq> None
      \<longrightarrow> snd (GameStorage_save setItem newURL uuid now game st) = st)
   \<and> (fst (GameStorage_update setItem newURL i updates st) \<noteq> None
      \<longrightarrow> snd (GameStorage_update setItem newURL i updates st) = st)
   \<and> (fst (GameStorage_delete setItem i st) \<noteq> None
      \<longrightarrow> snd (GameStorage_delete setItem i st) = st)
   \<and> (fst (GameStorage_import setItem data st) \<noteq> None
      \<longrightarrow> snd (GameStorage_import setItem data st) = st)
   \<and> (fst (GameStorage_incrementPlayCount setItem newURL i st) \<noteq> None
      \<longrightarrow> snd (GameStorage_incrementPlayCount setItem newURL i st) = st)"
proof (intro conjI impI)
  assume "fst (GameStorage_save setItem newURL uuid now game st) \<noteq> None"
  then show "snd (GameStorage_save setItem newURL uuid now game st) = st"
    using save_failure by blast
next
  assume "fst (GameStorage_update setItem newURL i updates st) \<noteq> None"
  then show "snd (GameStorage_update setItem newURL i updates st) = st"
    using update_failure by blast
next
  assume "fst (GameStorage_delete setItem i st) \<noteq> None"
  then show "snd (GameStorage_delete setItem i st) = st"
    using delete_failure by blast
next
  assume "fst (GameStorage_import setItem data st) \<noteq> None"
  then show "snd (GameStorage_import setItem data st) = st"
    using import_failure by blast
next
  assume "fst (GameStorage_incrementPlayCount setItem newURL i st) \<noteq> None"
  then show "snd (GameStorage_incrementPlayCount setItem newURL i st) = st"
    using incrementPlayCount_failure by blast
qed



theorem failed_operation_keeps_storage_witness:
  "fst (GameStorage_save quotaFull new_URL (js ''id-1'') (js ''2024-01-01T00:00:00.000Z'')
          snakeForm (GamesJSON [pong])) \<noteq> None
   \<and> snd (GameStorage_save quotaFull new_URL (js ''id-1'') (js ''2024-01-01T00:00:00.000Z'')
          snakeForm (GamesJSON [pong])) = GamesJSON [pong]
   \<and> fst (GameStorage_update quotaFull new_URL (js ''id-9'') noUpdates (GamesJSON [pong])) \<noteq> None
   \<and> snd (GameStorage_update quotaFull new_URL (js ''id-9'') noUpdates (GamesJSON [pong]))
       = GamesJSON [pong]
   \<and> fst (GameStorage_delete quotaFull (js ''id-9'') (GamesJSON [pong])) \<noteq> None
   \<and> snd (GameStorage_delete quotaFull (js ''id-9'') (GamesJSON [pong])) = GamesJSON [pong]
   \<and> fst (GameStorage_import quotaFull (GamesArray [Some snake, None]) (GamesJSON [pong])) \<noteq> None
   \<and> snd (GameStorage_import quotaFull (GamesArray [Some snake, None]) (GamesJSON [pong]))
       = GamesJSON [pong]
   \<and> fst (GameStorage_incrementPlayCount quotaFull new_URL (js ''id-2'') (GamesJSON [pong])) \<noteq> None
   \<and> snd (GameStorage_incrementPlayCount quotaFull new_URL (js ''id-2'') (GamesJSON [pong]))
       = GamesJSON [pong]"
proof -
  have 1: "fst (GameStorage_save quotaFull new_URL (js ''id-1'') (js ''2024-01-01T00:00:00.000Z'')
          snakeForm (GamesJSON [pong])) \<noteq> None"
    by (simp add: GameStorage_save_def snakeForm_def validate_codepen accepted_def saveGames_def
        quotaFull_def Let_def)
  have 2: "fst (GameStorage_update quotaFull new_URL (js ''id-9'') noUpdates (GamesJSON [pong]))
        \<noteq> None"
    by (simp add: GameStorage_update_def GameStorage_getAll_def pong_def js_def Let_def)
  have 3: "fst (GameStorage_delete quotaFull (js ''id-9'') (GamesJSON [pong])) \<noteq> None"
    by (simp add: GameStorage_delete_def saveGames_def quotaFull_def Let_def)
  have 4: "fst (GameStorage_import quotaFull (GamesArray [Some snake, None]) (GamesJSON [pong]))
        \<noteq> None"
    by (simp add: GameStorage_import_def)
  have 5: "fst (GameStorage_incrementPlayCount quotaFull new_URL (js ''id-2'') (GamesJSON [pong]))
        \<noteq> None"
    by (simp add: GameStorage_incrementPlayCount_def GameStorage_getById_def
        GameStorage_update_def GameStorage_getAll_def pong_def noUpdates_def saveGames_def
        quotaFull_def Let_def)
  from 1 2 3 4 5
    failed_operation_keeps_storage [of quotaFull new_URL "js ''id-1''"
      "js ''2024-01-01T00:00:00.000Z''" snakeForm "GamesJSON [pong]" "js ''id-9''" noUpdates
      "GamesArray [Some snake, None]"]
    failed_operation_keeps_storage [of quotaFull new_URL "js ''id-1''"
      "js ''2024-01-01T00:00:00.000Z''" snakeForm "GamesJSON [pong]" "js ''id-2''" noUpdates
      "GamesArray [Some snake, None]"]
  show ?thesis by blast
qed













section \<open>The submission form\<close>

lemma trim_Nil: "trim [] = []"
  by (simp add: trim_def)

lemma sanitizeTitle_blank: "trim t = [] \<Longrightarrow> sanitizeTitle t = []"
  by (simp add: sanitizeTitle_def sanitizeText_def)

lemma validateGameData_blank_title:
  assumes "trim (title d) = []"
  shows "\<not> dataIsValid (validateGameData d)
         \<and> js ''Title is required'' \<in> set (errors (validateGameData d))"
  using assms by (simp add: validateGameData_def Let_def)

lemma validate_ok_com:
  "validate new_URL (js ''https://ok.com'') = accepted (js ''https://ok.com/'')"
  by (simp add: eval_defs)

text \<open>
  Claim C4. Submitting the form with a title that is empty or consists of white space only
  is rejected with the error \<^verbatim>\<open>Title is required\<close>, and nothing is persisted: the storage is
  what it was before the attempt. This holds whatever the URL is, a valid one included.
\<close>

theorem blank_title_rejected:
  assumes "trim (title formData) = []"
  shows "js ''Title is required''
           \<in> set (fst (handleSubmit validationResult setItem newURL uuid now formData st))
         \<and> snd (handleSubmit validationResult setItem newURL uuid now formData st) = st"
proof -
  let ?d = "\<lparr> title = sanitizeTitle (title formData),
              url = trim (url formData),
              description = (case description formData of
                               Some d \<Rightarrow> if d \<noteq> [] then Some (sanitizeDescription d) else None
                             | None \<Rightarrow> None),
              author = (case author formData of
                          Some a \<Rightarrow> if a \<noteq> [] then Some (sanitizeAuthor a) else None
                        | None \<Rightarrow> None),
              tags = sanitizeTags (tags formData) \<rparr>"
  from assms have "trim (title ?d) = []"
    by (simp add: sanitizeTitle_blank trim_Nil)
  then have v: "\<not> dataIsValid (validateGameData ?d)
      \<and> js ''Title is required'' \<in> set (errors (validateGameData ?d))"
    by (rule validateGameData_blank_title)
  then have "handleSubmit validationResult setItem newURL uuid now formData st
             = (errors (validateGameData ?d), st)"
    by (simp add: handleSubmit_def Let_def)
  with v show ?thesis by simp
qed

theorem blank_title_rejected_witness:
  "trim (title \<lparr> title = js ''  '', url = js ''https://ok.com'', description = None,
                 author = None, tags = [] \<rparr>) = []
   \<and> isValid (validate new_URL (js ''https://ok.com''))
   \<and> js ''Title is required''
         \<in> set (fst (handleSubmit (Some (validate new_URL (js ''https://ok.com''))) alwaysWritten
                     new_URL (js ''id-3'') (js ''2024-01-03T00:00:00.000Z'')
                     \<lparr> title = js ''  '', url = js ''https://ok.com'', description = None,
                       author = None, tags = [] \<rparr> (GamesJSON [snake])))
   \<and> snd (handleSubmit (Some (validate new_URL (js ''https://ok.com''))) alwaysWritten
            new_URL (js ''id-3'') (js ''2024-01-03T00:00:00.000Z'')
            \<lparr> title = js ''  '', url = js ''https://ok.com'', description = None,
              author = None, tags = [] \<rparr> (GamesJSON [snake])) = GamesJSON [snake]"
proof -
  have 1: "trim (title \<lparr> title = js ''  '', url = js ''https://ok.com'', description = None,
                 author = None, tags = [] \<rparr>) = []"
    by (simp add: trim_def js_def isWhiteSpace_def)
  have 2: "isValid (validate new_URL (js ''https://ok.com''))"
    by (simp add: validate_ok_com accepted_def)
  from 1 2 blank_title_rejected [OF 1, of "Some (validate new_URL (js ''https://ok.com''))"
      alwaysWritten new_URL "js ''id-3''" "js ''2024-01-03T00:00:00.000Z''" "GamesJSON [snake]"]
  show ?thesis by blast
qed

text \<open>
  With a title, the same form is stored: the scenario of the specification in which
  \<^verbatim>\<open>{title: "Snake", url: "codepen.io/x"}\<close> becomes a record with the normalized URL, status
  active, play count 0 and not featured.
\<close>

lemma save_snake:
  "GameStorage_save alwaysWritten new_URL (js ''id-1'') (js ''2024-01-01T00:00:00.000Z'')
     snakeForm NoItem = (None, GamesJSON [snake])"
  by (simp add: GameStorage_save_def snakeForm_def validate_codepen accepted_def Let_def
      GameStorage_getAll_def saveGames_def alwaysWritten_def snake_def)
    (simp add: trim_def js_def isWhiteSpace_def)

lemma sanitizeTitle_Snake: "sanitizeTitle (js ''Snake'') = js ''Snake''"
  by (simp add: sanitizeTitle_def sanitizeText_def trim_def js_def isWhiteSpace_def isControl_def
      matchScript_def startsWith_ci_def canonicalize_def)

lemma sanitizeTags_arcade: "sanitizeTags [js ''arcade''] = [js ''arcade'']"
  by (simp add: sanitizeTags_def removeDuplicates_def sanitizeText_def trim_def
      isWhiteSpace_def isControl_def js_def enumerate_eq_zip upt_rec Let_def)

lemma trim_codepen: "trim (js ''codepen.io/x'') = js ''codepen.io/x''"
  by (simp add: trim_def js_def isWhiteSpace_def)

lemma validateGameData_snake:
  "dataIsValid (validateGameData \<lparr> title = js ''Snake'', url = js ''codepen.io/x'',
      description = None, author = None, tags = [js ''arcade''] \<rparr>)"
  by (simp add: validateGameData_def Let_def trim_codepen TITLE_MAX_LENGTH_def MAX_TAGS_def
      TAG_MAX_LENGTH_def enumerate_eq_zip)
    (simp add: trim_def js_def isWhiteSpace_def)

lemma submission_stored:
  "handleSubmit (Some (validate new_URL (js ''codepen.io/x''))) alwaysWritten new_URL
     (js ''id-1'') (js ''2024-01-01T00:00:00.000Z'') snakeForm NoItem
   = ([], GamesJSON [snake])"
proof -
  have s: "\<lparr> title = js ''Snake'', url = js ''codepen.io/x'', description = None,
             author = None, tags = [js ''arcade''] \<rparr> = snakeForm"
    by (simp add: snakeForm_def)
  show ?thesis
    unfolding handleSubmit_def Let_def
    by (simp add: snakeForm_def sanitizeTitle_Snake sanitizeTags_arcade trim_codepen
        validateGameData_snake validate_codepen accepted_def addGame_def)
      (simp add: s save_snake)
qed



section \<open>The order of getAll\<close>

lemma validate_codepen_y:
  "validate new_URL (js ''https://codepen.io/y'') = accepted (js ''https://codepen.io/y'')"
  by (simp add: eval_defs)

lemma save_pong:
  "GameStorage_save alwaysWritten new_URL (js ''id-2'') (js ''2024-01-02T00:00:00.000Z'')
     pongForm (GamesJSON [snake]) = (None, GamesJSON [snake, pong])"
  by (simp add: GameStorage_save_def pongForm_def validate_codepen_y accepted_def Let_def
      GameStorage_getAll_def saveGames_def alwaysWritten_def pong_def)
    (simp add: trim_def js_def isWhiteSpace_def)

lemma twoSaves_eq: "twoSaves = GamesJSON [snake, pong]"
  by (simp add: twoSaves_def save_snake save_pong)

lemma getAll_stored_order: "GameStorage_getAll (GamesJSON games) = games"
  by (simp add: GameStorage_getAll_def)

lemma save_appends:
  assumes "GameStorage_save setItem newURL uuid now game st = (None, st')"
  shows "\<exists>g. GameStorage_getAll st' = GameStorage_getAll st @ [g] \<and> submittedAt g = now"
proof -
  from assms obtain g where "saveGames setItem (GameStorage_getAll st @ [g]) st = (None, st')"
    and "submittedAt g = now"
    by (auto simp: GameStorage_save_def Let_def split: if_splits)
  then show ?thesis
    by (auto dest: saveGames_success simp: getAll_stored_order)
qed

lemma snake_before_pong: "submittedAt snake < submittedAt pong"
  by (simp add: snake_def pong_def js_def)

text \<open>
  Claim C7, on the localStorage adapter. \<open>getAll\<close> returns the stored array as it is, and
  \<open>save\<close> appends to it, so after two submissions the older one comes first: the result is
  not ordered newest first.
\<close>

theorem getAll_localStorage_oldest_first:
  "GameStorage_getAll twoSaves = [snake, pong]
   \<and> submittedAt snake < submittedAt pong
   \<and> \<not> newestFirst (GameStorage_getAll twoSaves)"
  by (simp add: twoSaves_eq getAll_stored_order newestFirst_def snake_before_pong)



text \<open>The Supabase adapter does order its result newest first, on every table.\<close>

lemma transformFromDb_submittedAt: "submittedAt (transformFromDb row) = submittedAt row"
  by (simp add: transformFromDb_def)

lemma Supabase_getAll_newestFirst: "newestFirst (Supabase_getAll db)"
proof (cases db)
  case None
  then show ?thesis by (simp add: Supabase_getAll_def newestFirst_def)
next
  case (Some rows)
  have "sorted (map submittedAt (sort_key submittedAt rows))" by (rule sorted_sort_key)
  then have "sorted_wrt (\<lambda>a b. submittedAt a \<le> submittedAt b) (sort_key submittedAt rows)"
    by (simp add: sorted_map)
  then have "sorted_wrt (\<lambda>a b. submittedAt b \<le> submittedAt a) (rev (sort_key submittedAt rows))"
    by (simp add: sorted_wrt_rev)
  then have "sorted_wrt (\<lambda>a b. \<not> submittedAt a < submittedAt b) (rev (sort_key submittedAt rows))"
    by (rule sorted_wrt_mono_rel [rotated]) auto
  then show ?thesis
    by (simp add: Some Supabase_getAll_def newestFirst_def orderBySubmittedAtDesc_def
        sorted_wrt_map transformFromDb_submittedAt)
qed

section \<open>Filtering by tags\<close>

text \<open>
  On the localStorage adapter a filter that asks for a non-empty list of tags returns exactly
  the records with a tag containing, in lower case, one of the requested tags.
\<close>

lemma hasRequestedTag_iff:
  "hasRequestedTag lc requested game \<longleftrightarrow>
     list_ex (\<lambda>filterTag. list_ex (\<lambda>gameTag. str_includes (lc gameTag) (lc filterTag)) (tags game))
       requested"
  by (auto simp: hasRequestedTag_def list_ex_iff str_includes_iff)

lemma GameStorage_getFiltered_tags:
  assumes "requested \<noteq> []"
  shows "GameStorage_getFiltered lc (tagsOnly requested) st
         = filter (hasRequestedTag lc requested) (GameStorage_getAll st)"
proof -
  have "hasRequestedTag lc requested
        = (\<lambda>game. list_ex (\<lambda>filterTag.
             list_ex (\<lambda>gameTag. str_includes (lc gameTag) (lc filterTag)) (tags game))
             requested)"
    by (rule ext) (rule hasRequestedTag_iff)
  with assms show ?thesis
    by (simp add: GameStorage_getFiltered_def tagsOnly_def)
qed

text \<open>
  Claim C8, on the Supabase adapter. Asked for the tags \<^verbatim>\<open>arcade\<close> and \<^verbatim>\<open>puzzle\<close>, it returns
  neither the record tagged \<^verbatim>\<open>arcade\<close> nor the one tagged \<^verbatim>\<open>Puzzles\<close>, although each has a tag
  that contains a requested tag and the localStorage adapter returns both: \<^verbatim>\<open>contains\<close> asks
  for every requested tag, spelled exactly.
\<close>

theorem Supabase_getFiltered_needs_every_tag:
  "hasRequestedTag asciiLowerCase [js ''arcade'', js ''puzzle''] snake
   \<and> hasRequestedTag asciiLowerCase [js ''arcade'', js ''puzzle''] pong
   \<and> GameStorage_getFiltered asciiLowerCase (tagsOnly [js ''arcade'', js ''puzzle''])
        (GamesJSON [snake, pong]) = [snake, pong]
   \<and> Supabase_getFiltered asciiLowerCase (tagsOnly [js ''arcade'', js ''puzzle''])
        (Some [snake, pong]) = []"
proof -
  have 1: "hasRequestedTag asciiLowerCase [js ''arcade'', js ''puzzle''] snake"
    by (simp add: hasRequestedTag_iff snake_def js_def asciiLowerCase_def asciiLower_def
        startsWith_def)
  have 2: "hasRequestedTag asciiLowerCase [js ''arcade'', js ''puzzle''] pong"
    by (simp add: hasRequestedTag_iff pong_def js_def asciiLowerCase_def asciiLower_def
        startsWith_def)
  have 3: "GameStorage_getFiltered asciiLowerCase (tagsOnly [js ''arcade'', js ''puzzle''])
        (GamesJSON [snake, pong]) = [snake, pong]"
    using 1 2 by (simp add: GameStorage_getFiltered_tags getAll_stored_order)
  have 4: "Supabase_getFiltered asciiLowerCase (tagsOnly [js ''arcade'', js ''puzzle''])
        (Some [snake, pong]) = []"
    by (simp add: Supabase_getFiltered_def tagsOnly_def Let_def snake_def pong_def js_def
        orderBySubmittedAtDesc_def)
  from 1 2 3 4 show ?thesis by blast
qed

end
